theory Spec2Isabelle
  imports Complex_Main
begin

section \<open>Tensors\<close>

text \<open>
  The optimizer of \<^verbatim>\<open>torch_mnm/optimizer/adam.py\<close> works on torch tensors. A tensor is
  modelled by its metadata (shape, dtype, device, autograd flag, sparse layout flag) and
  its contiguous row-major storage. The Python exceptions that the code can raise are
  values of \<open>error\<close>; the three exceptions raised by the optimizer itself carry the
  fixed part of their message.
\<close>

datatype error =
    ValueError string | NotImplementedError string | RuntimeError string | AssertionError
  | IndexError | KeyError | ZeroDivisionError | OverflowError

datatype dtype = Float32 | Float64 | Float16 | BFloat16 | Int64

datatype device = CPU | Lazy | Cuda nat

record 'a tensor =
  shape :: "nat list"
  dtype :: dtype
  device :: device
  requires_grad :: bool
  is_sparse :: bool
  storage :: "'a list"

definition numel :: "nat list \<Rightarrow> nat" where
  "numel shp = prod_list shp"

definition wf_tensor :: "'a tensor \<Rightarrow> bool" where
  "wf_tensor t \<longleftrightarrow> length (storage t) = numel (shape t)"

text \<open>\<^verbatim>\<open>torch.zeros(shape, dtype=dt).to(device=dev)\<close>: a dense zero buffer without autograd.\<close>

definition zeros :: "nat list \<Rightarrow> dtype \<Rightarrow> device \<Rightarrow> ('a::zero) tensor" where
  "zeros shp dt dev =
     \<lparr>shape = shp, dtype = dt, device = dev, requires_grad = False, is_sparse = False,
      storage = replicate (numel shp) 0\<rparr>"

text \<open>Row \<open>i\<close> along the leading dimension: the \<open>i\<close>-th block of \<open>numel (tl shape)\<close> elements.\<close>

definition row_size :: "'a tensor \<Rightarrow> nat" where
  "row_size t = numel (tl (shape t))"

definition row :: "'a tensor \<Rightarrow> nat \<Rightarrow> 'a list" where
  "row t i = take (row_size t) (drop (i * row_size t) (storage t))"

section \<open>The optimizer object\<close>

text \<open>
  A parameter group carries the hyperparameters and the identities of its parameters.
  Python floats are read as reals (no NaN, no rounding). A parameter is identified by a
  number; the per-parameter state is the dict \<^verbatim>\<open>self.state[p]\<close> with the keys
  \<^verbatim>\<open>'step'\<close>, \<^verbatim>\<open>'exp_avg'\<close> and \<^verbatim>\<open>'exp_avg_sq'\<close>, each present or absent. The rank,
  the world size and the ZeRO level come from the distributed context and are never
  negative, so they are natural numbers; a world size of 0 is kept, since the code then
  divides by zero.
\<close>

record param_group =
  lr :: real
  betas :: "real \<times> real"
  eps :: real
  weight_decay :: real
  amsgrad :: bool
  params :: "nat list"

record 'a state_dict =
  st_step :: "int option"
  exp_avg :: "'a tensor option"
  exp_avg_sq :: "'a tensor option"

record 'a adam =
  param_groups :: "param_group list"
  state :: "nat \<rightharpoonup> 'a state_dict"
  zero_opt_level :: nat
  rank :: nat
  world_size :: nat
  lm :: bool

section \<open>Shard eligibility and shard buffers\<close>

text \<open>
  \<^verbatim>\<open>_need_partition\<close>: \<^verbatim>\<open>self._zero_opt_level > 0 and data.shape[0] >= self._world_size\<close>.
  The conjunction is short-circuit: the shape is only indexed when the level is positive,
  and indexing the shape of a 0-dimensional tensor raises \<^verbatim>\<open>IndexError\<close>.
\<close>

definition need_partition :: "('a, 'b) adam_scheme \<Rightarrow> 'c tensor \<Rightarrow> error + bool" where
  "need_partition self gd =
     (if zero_opt_level self > 0
      then (case shape gd of
              [] \<Rightarrow> Inl IndexError
            | n # _ \<Rightarrow> Inr (n \<ge> world_size self))
      else Inr False)"

text \<open>
  Python's true division \<^verbatim>\<open>n / w\<close> of two non-negative integers gives a float: the
  quotient rounded correctly to the nearest double (ties to the even mantissa). A double
  has a mantissa of 53 bits and an exponent of at least \<open>-1022\<close>, below which the
  spacing stays \<open>2 ^ -1074\<close>; a quotient that rounds to \<open>2 ^ 1024\<close> or more raises
  \<^verbatim>\<open>OverflowError\<close>, a zero divisor \<^verbatim>\<open>ZeroDivisionError\<close>. The float is kept as the
  real number it denotes. \<open>quot_exponent n w\<close> is the exponent \<open>e\<close> with
  \<open>2 ^ e \<le> n / w < 2 ^ (e + 1)\<close>, found from the bit lengths. \<^verbatim>\<open>math.ceil\<close> of a
  float is its exact ceiling.
\<close>

fun bit_length :: "nat \<Rightarrow> nat" where
  "bit_length n = (if n = 0 then 0 else Suc (bit_length (n div 2)))"

declare bit_length.simps [simp del]

definition round_half_even :: "real \<Rightarrow> int" where
  "round_half_even x =
     (let f = \<lfloor>x\<rfloor>; r = x - of_int f
      in if r < 1 / 2 then f else if 1 / 2 < r then f + 1 else if even f then f else f + 1)"

definition quot_exponent :: "nat \<Rightarrow> nat \<Rightarrow> int" where
  "quot_exponent n w =
     (let d = int (bit_length n) - int (bit_length w)
      in if 2 powi d \<le> real n / real w then d else d - 1)"

definition py_truediv :: "nat \<Rightarrow> nat \<Rightarrow> error + real" where
  "py_truediv n w =
     (if w = 0 then Inl ZeroDivisionError
      else if n = 0 then Inr 0
      else
        let q = real n / real w;
            e = max (quot_exponent n w) (- 1022);
            ulp = 2 powi (e - 52);
            r = of_int (round_half_even (q / ulp)) * ulp
        in if 2 powi 1024 \<le> r then Inl OverflowError else Inr r)"

text \<open>\<^verbatim>\<open>math.ceil(n / w)\<close>, the leading dimension of a shard buffer.\<close>

definition shard_dim :: "nat \<Rightarrow> nat \<Rightarrow> error + nat" where
  "shard_dim n w = (case py_truediv n w of Inl e \<Rightarrow> Inl e | Inr x \<Rightarrow> Inr (nat \<lceil>x\<rceil>))"

text \<open>
  \<^verbatim>\<open>_create_partitioned_buffer\<close>: \<^verbatim>\<open>new_shape[0] = math.ceil(new_shape[0] / self._world_size)\<close>
  with Python's true division, then a zero buffer of the new shape, of the dtype and on
  the device of \<open>data\<close>, created with \<^verbatim>\<open>requires_grad=False\<close>.
\<close>

definition create_partitioned_buffer ::
  "('a, 'b) adam_scheme \<Rightarrow> 'c tensor \<Rightarrow> error + ('d::zero) tensor" where
  "create_partitioned_buffer self gd =
     (case shape gd of
        [] \<Rightarrow> Inl IndexError
      | n # rest \<Rightarrow>
          (case shard_dim n (world_size self) of
             Inl e \<Rightarrow> Inl e
           | Inr k \<Rightarrow> Inr (zeros (k # rest) (dtype gd) (device gd))))"

section \<open>Tensor primitives used by the optimizer\<close>

subsection \<open>Constant padding\<close>

text \<open>
  \<^verbatim>\<open>torch.nn.functional.pad(t, pad)\<close> in its default mode (constant, value 0). The flat
  list \<open>pad\<close> holds a (before, after) pair per dimension, starting from the last
  dimension; dimensions without a pair are not padded. The storage is rebuilt dimension by
  dimension: each of the \<open>d\<close> blocks of the leading dimension is padded recursively, and
  zero blocks are put before and after.
\<close>

fun chunks :: "nat \<Rightarrow> nat \<Rightarrow> 'a list \<Rightarrow> 'a list list" where
  "chunks 0 sz xs = []"
| "chunks (Suc n) sz xs = take sz xs # chunks n sz (drop sz xs)"

fun pairs_of :: "nat list \<Rightarrow> (nat \<times> nat) list" where
  "pairs_of (l # r # xs) = (l, r) # pairs_of xs"
| "pairs_of _ = []"

fun padded_shape :: "nat list \<Rightarrow> (nat \<times> nat) list \<Rightarrow> nat list" where
  "padded_shape (d # ds) ((b, a) # ps) = (b + d + a) # padded_shape ds ps"
| "padded_shape ds _ = ds"

fun pad_storage :: "nat list \<Rightarrow> (nat \<times> nat) list \<Rightarrow> ('a::zero) list \<Rightarrow> 'a list" where
  "pad_storage (d # ds) ((b, a) # ps) xs =
     (let rs = numel (padded_shape ds ps)
      in replicate (b * rs) 0
         @ concat (map (pad_storage ds ps) (chunks d (numel ds) xs))
         @ replicate (a * rs) 0)"
| "pad_storage _ _ xs = xs"

definition F_pad :: "('a::zero) tensor \<Rightarrow> nat list \<Rightarrow> error + 'a tensor" where
  "F_pad t pad =
     (if odd (length pad) \<or> length (shape t) < length pad div 2 then Inl (RuntimeError ''pad'')
      else
        let spec = replicate (length (shape t) - length pad div 2) (0, 0) @ rev (pairs_of pad)
        in Inr (t\<lparr>shape := padded_shape (shape t) spec,
                  storage := pad_storage (shape t) spec (storage t)\<rparr>))"

subsection \<open>Slicing along the leading dimension\<close>

text \<open>
  \<^verbatim>\<open>t[a:b]\<close> with non-negative bounds: Python clamps both bounds to the length of the
  leading dimension; a 0-dimensional tensor cannot be sliced.
\<close>

definition slice_rows :: "'a tensor \<Rightarrow> nat \<Rightarrow> nat \<Rightarrow> error + 'a tensor" where
  "slice_rows t a b =
     (case shape t of
        [] \<Rightarrow> Inl IndexError
      | n # rest \<Rightarrow>
          let lo = min a n; hi = min b n
          in Inr (t\<lparr>shape := (hi - lo) # rest,
                    storage := take ((hi - lo) * numel rest) (drop (lo * numel rest) (storage t))\<rparr>))"

subsection \<open>Scatter along dimension 0 and full assignment\<close>

text \<open>
  \<^verbatim>\<open>self.scatter_(dim=0, index=index, src=src)\<close> performs, for every position
  \<open>(i, j, ...)\<close> of \<open>index\<close>, the write \<^verbatim>\<open>self[index[i][j]...][j]... = src[i][j]...\<close>.
  The three tensors must have the same number of dimensions and the same dtype for
  \<open>self\<close> and \<open>src\<close>; \<open>index\<close> must fit into \<open>src\<close> in every dimension and into
  \<open>self\<close> in every dimension but the first; every index value must address a row of
  \<open>self\<close>. A 0-dimensional tensor counts as a vector of one element. The writes are
  done in the order \<open>qs\<close> of the flat positions of \<open>index\<close>; \<open>scatter_dim0\<close> takes
  the storage order (torch leaves the winner among repeated indices unspecified).
\<close>

fun unravel :: "nat list \<Rightarrow> nat \<Rightarrow> nat list" where
  "unravel [] q = []"
| "unravel (d # ds) q = (q div numel ds) # unravel ds (q mod numel ds)"

fun ravel :: "nat list \<Rightarrow> nat list \<Rightarrow> nat" where
  "ravel (d # ds) (i # js) = i * numel ds + ravel ds js"
| "ravel _ _ = 0"

fun scatter_writes ::
  "nat list \<Rightarrow> nat list \<Rightarrow> nat list \<Rightarrow> int list \<Rightarrow> 'a list \<Rightarrow> nat list \<Rightarrow> 'a list \<Rightarrow> 'a list" where
  "scatter_writes sshp ishp srcshp idx src [] self = self"
| "scatter_writes sshp ishp srcshp idx src (q # qs) self =
     (let mi = unravel ishp q
      in scatter_writes sshp ishp srcshp idx src qs
           (self[ravel sshp (nat (idx ! q) # tl mi) := src ! ravel srcshp mi]))"

definition at_least_1d :: "nat list \<Rightarrow> nat list" where
  "at_least_1d shp = (if shp = [] then [1] else shp)"

definition scatter_dim0 :: "'a tensor \<Rightarrow> int tensor \<Rightarrow> 'a tensor \<Rightarrow> error + 'a tensor" where
  "scatter_dim0 self index src =
     (let sshp = at_least_1d (shape self); ishp = at_least_1d (shape index);
          srcshp = at_least_1d (shape src)
      in if length ishp \<noteq> length sshp \<or> length ishp \<noteq> length srcshp
            \<or> dtype self \<noteq> dtype src
            \<or> \<not> list_all2 (\<le>) ishp srcshp
            \<or> \<not> list_all2 (\<le>) (tl ishp) (tl sshp)
            \<or> (\<exists>i \<in> set (storage index). i < 0 \<or> int (hd sshp) \<le> i)
         then Inl (RuntimeError ''scatter'')
         else Inr (self\<lparr>storage :=
                     scatter_writes sshp ishp srcshp (storage index) (storage src)
                       [0 ..< numel ishp] (storage self)\<rparr>))"

text \<open>
  \<^verbatim>\<open>t[:] = src\<close>: a 0-dimensional tensor cannot be sliced. A source of the shape of
  \<open>t\<close> is copied as it is. Any other source loses its leading dimensions of size 1 and
  is then broadcast to the shape of \<open>t\<close>: its dimensions are aligned with the last
  dimensions of \<open>t\<close>, and each must be 1 or the dimension of \<open>t\<close>; the element of
  \<open>t\<close> at a position takes the element of the source at the same position, with 0 in
  the dimensions of size 1. A source that cannot be broadcast raises \<^verbatim>\<open>RuntimeError\<close>.
\<close>

definition broadcast_index :: "nat list \<Rightarrow> nat list \<Rightarrow> nat \<Rightarrow> nat" where
  "broadcast_index dshp sshp q =
     ravel sshp
       (map2 (\<lambda>s i. if s = 1 then 0 else i) sshp
          (drop (length dshp - length sshp) (unravel dshp q)))"

definition setitem_all :: "'a tensor \<Rightarrow> 'a tensor \<Rightarrow> error + 'a tensor" where
  "setitem_all t src =
     (case shape t of
        [] \<Rightarrow> Inl IndexError
      | _ # _ \<Rightarrow>
          if shape src = shape t then Inr (t\<lparr>storage := storage src\<rparr>)
          else
            let sshp = dropWhile (\<lambda>d. d = 1) (shape src)
            in if length sshp \<le> length (shape t)
                  \<and> list_all2 (\<lambda>s d. s = 1 \<or> s = d) sshp
                        (drop (length (shape t) - length sshp) (shape t))
               then Inr (t\<lparr>storage :=
                           map (\<lambda>q. storage src ! broadcast_index (shape t) sshp q)
                             [0 ..< numel (shape t)]\<rparr>)
               else Inl (RuntimeError ''expand''))"

section \<open>Partitioning a global tensor\<close>

text \<open>
  \<^verbatim>\<open>_partition(global_data, local_data)\<close>. The result is tagged with where it comes from:
  the global tensor itself (\<^verbatim>\<open>part_data = global_data\<close>), a slice view of the global
  tensor, or a slice view of the freshly padded copy.
\<close>

datatype origin = SameObject | ViewOfGlobal | ViewOfPadded

definition partition_t ::
  "('a, 'b) adam_scheme \<Rightarrow> ('c::zero) tensor \<Rightarrow> 'd tensor \<Rightarrow> error + (origin \<times> 'c tensor)" where
  "partition_t self global_data local_data =
     (case need_partition self global_data of
        Inl e \<Rightarrow> Inl e
      | Inr False \<Rightarrow> Inr (SameObject, global_data)
      | Inr True \<Rightarrow>
          (case shape local_data of
             [] \<Rightarrow> Inl IndexError
           | part_size # _ \<Rightarrow>
               (case shape global_data of
                  [] \<Rightarrow> Inl IndexError
                | n # _ \<Rightarrow>
                    (case (if world_size self * part_size > n
                           then let pad_width0 = replicate (length (shape global_data) * 2) 0;
                                    pad_width = pad_width0[length pad_width0 - 1 :=
                                                  world_size self * part_size - n]
                                in map_sum id (Pair ViewOfPadded) (F_pad global_data pad_width)
                           else Inr (ViewOfGlobal, global_data)) of
                       Inl e \<Rightarrow> Inl e
                     | Inr (org, part_data) \<Rightarrow>
                         map_sum id (Pair org)
                           (slice_rows part_data (rank self * part_size)
                              ((rank self + 1) * part_size))))))"

section \<open>Construction\<close>

text \<open>
  \<^verbatim>\<open>Adam.__init__\<close>: the hyperparameter checks in the order of the source, then the
  parent constructor \<^verbatim>\<open>super().__init__(params, defaults)\<close>, then the distributed context
  read once. The parameters are given as a list of leaf tensors (their identities); of
  the checks of the parent constructor the one that can then fail is the first, which
  raises \<^verbatim>\<open>ValueError\<close> for an empty list; it then builds the single parameter group
  from the defaults. The import of the lazy-tensor module is outside this repository;
  \<open>mark_step\<close> is kept as the flag \<open>lm\<close>.
\<close>

record dist_context =
  dctx_zero_opt_level :: nat
  dctx_rank :: nat
  dctx_size :: nat

definition adam_init ::
  "nat list \<Rightarrow> real \<Rightarrow> real \<times> real \<Rightarrow> real \<Rightarrow> real \<Rightarrow> bool \<Rightarrow> bool \<Rightarrow> dist_context
     \<Rightarrow> error + 'a adam" where
  "adam_init ps lr0 betas0 eps0 weight_decay0 amsgrad0 mark_step dctx =
     (if \<not> 0 \<le> lr0 then Inl (ValueError ''Invalid learning rate'')
      else if \<not> 0 \<le> eps0 then Inl (ValueError ''Invalid epsilon value'')
      else if \<not> (0 \<le> fst betas0 \<and> fst betas0 < 1)
        then Inl (ValueError ''Invalid beta parameter at index 0'')
      else if \<not> (0 \<le> snd betas0 \<and> snd betas0 < 1)
        then Inl (ValueError ''Invalid beta parameter at index 1'')
      else if \<not> 0 \<le> weight_decay0 then Inl (ValueError ''Invalid weight_decay value'')
      else if amsgrad0 \<noteq> False
        then Inl (NotImplementedError ''amsgrad==True is not yet supported'')
      else if ps = [] then Inl (ValueError ''optimizer got an empty parameter list'')
      else Inr \<lparr>param_groups =
                  [\<lparr>lr = lr0, betas = betas0, eps = eps0, weight_decay = weight_decay0,
                    amsgrad = amsgrad0, params = ps\<rparr>],
                state = Map.empty,
                zero_opt_level = dctx_zero_opt_level dctx,
                rank = dctx_rank dctx,
                world_size = dctx_size dctx,
                lm = mark_step\<rparr>)"

text \<open>The call with every optional argument left at its default.\<close>

definition adam_init_default :: "nat list \<Rightarrow> dist_context \<Rightarrow> error + 'a adam" where
  "adam_init_default ps dctx =
     adam_init ps (1 / 1000) (9 / 10, 999 / 1000) (1 / 100000000) 0 False False dctx"

section \<open>The optimization step\<close>

text \<open>
  A parameter has its data and an optional gradient; the training loop owns the
  parameters, here a store from identities to parameters, together with a count of the
  \<^verbatim>\<open>mark_step\<close> signals sent to the lazy-tensor runtime.

  \<^verbatim>\<open>F.adam\<close> lives in \<^verbatim>\<open>_functional.py\<close>, which is not part of the sources at hand. It
  is a parameter \<open>F\<close> of the step: from the group, the local parameter, the local
  gradient, the two moment buffers and the step count it gives the values of the updated
  local parameter and the new values of the two moment buffers, which it changes in place
  (so the buffers keep their shape, dtype and device). It is taken to return without
  raising and to leave the parameter and the gradient themselves alone.
\<close>

record 'a param =
  data :: "'a tensor"
  grad :: "'a tensor option"

record 'a env =
  tensors :: "nat \<Rightarrow> 'a param"
  mark_steps :: nat

type_synonym 'a adam_fn =
  "param_group \<Rightarrow> 'a tensor \<Rightarrow> 'a tensor \<Rightarrow> 'a tensor \<Rightarrow> 'a tensor \<Rightarrow> int
     \<Rightarrow> 'a list \<times> 'a list \<times> 'a list"

definition empty_dict :: "'a state_dict" where
  "empty_dict = \<lparr>st_step = None, exp_avg = None, exp_avg_sq = None\<rparr>"

definition dict_len :: "'a state_dict \<Rightarrow> nat" where
  "dict_len sd =
     (if st_step sd = None then 0 else 1) + (if exp_avg sd = None then 0 else 1)
       + (if exp_avg_sq sd = None then 0 else 1)"

definition set_state :: "'a adam \<Rightarrow> nat \<Rightarrow> 'a state_dict \<Rightarrow> 'a adam" where
  "set_state self pid sd = self\<lparr>state := (state self)(pid \<mapsto> sd)\<rparr>"

text \<open>Lines 95 to 105: the lazy state initialization, key by key.\<close>

definition lazy_init ::
  "('a::zero) adam \<Rightarrow> 'a tensor \<Rightarrow> 'a state_dict \<Rightarrow> error option \<times> 'a state_dict" where
  "lazy_init self p sd =
     (if dict_len sd = 0 then
        let sd1 = sd\<lparr>st_step := Some 0\<rparr>
        in (case need_partition self p of
              Inl e \<Rightarrow> (Some e, sd1)
            | Inr True \<Rightarrow>
                (case create_partitioned_buffer self p of
                   Inl e \<Rightarrow> (Some e, sd1)
                 | Inr b1 \<Rightarrow>
                     let sd2 = sd1\<lparr>exp_avg := Some b1\<rparr>
                     in (case create_partitioned_buffer self p of
                           Inl e \<Rightarrow> (Some e, sd2)
                         | Inr b2 \<Rightarrow> (None, sd2\<lparr>exp_avg_sq := Some b2\<rparr>)))
            | Inr False \<Rightarrow>
                (None, sd1\<lparr>exp_avg := Some (zeros (shape p) (dtype p) (device p)),
                           exp_avg_sq := Some (zeros (shape p) (dtype p) (device p))\<rparr>))
      else (None, sd))"

text \<open>
  Lines 107 to 128: read the buffers, check their shapes, take the local parts of the
  parameter and of the gradient, count the step, run \<^verbatim>\<open>F.adam\<close>. Nothing is changed
  before the counter is incremented, so a failure leaves the state as it was.
\<close>

definition local_update ::
  "'a adam_fn \<Rightarrow> ('a::zero) adam \<Rightarrow> param_group \<Rightarrow> 'a tensor \<Rightarrow> 'a tensor \<Rightarrow> 'a state_dict
     \<Rightarrow> error + ('a state_dict \<times> 'a tensor)" where
  "local_update F self grp p g sd =
     (case exp_avg sd of
        None \<Rightarrow> Inl KeyError
      | Some ea \<Rightarrow>
     (case exp_avg_sq sd of
        None \<Rightarrow> Inl KeyError
      | Some eas \<Rightarrow>
          if shape ea \<noteq> shape eas then Inl AssertionError
          else
     (case partition_t self p ea of
        Inl e \<Rightarrow> Inl e
      | Inr (_, param_with_grad_local) \<Rightarrow>
     (case partition_t self g ea of
        Inl e \<Rightarrow> Inl e
      | Inr (_, grad_local) \<Rightarrow>
     (case st_step sd of
        None \<Rightarrow> Inl KeyError
      | Some s \<Rightarrow>
          let state_step = s + 1;
              (new_p, new_ea, new_eas) =
                 F grp param_with_grad_local grad_local ea eas state_step
          in Inr (sd\<lparr>st_step := Some state_step,
                     exp_avg := Some (ea\<lparr>storage := new_ea\<rparr>),
                     exp_avg_sq := Some (eas\<lparr>storage := new_eas\<rparr>)\<rparr>,
                  param_with_grad_local\<lparr>storage := new_p\<rparr>))))))"

text \<open>
  Lines 130 to 137: the write back. For a shard-eligible parameter the index tensor is
  \<^verbatim>\<open>torch.zeros(updated.size(), dtype=torch.int64)\<close> on the device of the update, and the
  update is scattered along dimension 0; otherwise \<^verbatim>\<open>param[:] = updated\<close>.
\<close>

definition writeback ::
  "('a, 'b) adam_scheme \<Rightarrow> 'c tensor \<Rightarrow> 'c tensor \<Rightarrow> error + 'c tensor" where
  "writeback self param_with_grad_global updated =
     (case need_partition self param_with_grad_global of
        Inl e \<Rightarrow> Inl e
      | Inr True \<Rightarrow>
          let index = (zeros (shape updated) Int64 (device updated) :: int tensor)
          in scatter_dim0 param_with_grad_global index updated
      | Inr False \<Rightarrow> setitem_all param_with_grad_global updated)"

text \<open>
  The body of the loop over the parameters of a group (lines 88 to 141). The result is
  the exception raised, if any, with the optimizer and the parameters as they are at that
  moment: \<^verbatim>\<open>self.state[p]\<close> inserts an empty dict for a parameter without state, and
  whatever has been stored before a failure stays stored.
\<close>

definition step_param ::
  "'a adam_fn \<Rightarrow> ('a::zero) adam \<Rightarrow> param_group \<Rightarrow> nat \<Rightarrow> 'a env
     \<Rightarrow> error option \<times> 'a adam \<times> 'a env" where
  "step_param F self grp pid env =
     (let p = tensors env pid
      in case grad p of
           None \<Rightarrow> (None, self, env)
         | Some g \<Rightarrow>
             if is_sparse g
             then (Some (RuntimeError
                     ''Adam does not support sparse gradients, please consider SparseAdam instead''),
                   self, env)
             else
               (case lazy_init self (data p)
                       (case state self pid of None \<Rightarrow> empty_dict | Some sd \<Rightarrow> sd) of
                  (Some e, sd1) \<Rightarrow> (Some e, set_state self pid sd1, env)
                | (None, sd1) \<Rightarrow>
                    (case local_update F self grp (data p) g sd1 of
                       Inl e \<Rightarrow> (Some e, set_state self pid sd1, env)
                     | Inr (sd2, updated) \<Rightarrow>
                         (case writeback self (data p) updated of
                            Inl e \<Rightarrow> (Some e, set_state self pid sd2, env)
                          | Inr d \<Rightarrow>
                              (None, set_state self pid sd2,
                               env\<lparr>tensors := (tensors env)(pid := p\<lparr>data := d\<rparr>),
                                   mark_steps := (if lm self then mark_steps env + 1
                                                  else mark_steps env)\<rparr>)))))"

fun step_params ::
  "'a adam_fn \<Rightarrow> ('a::zero) adam \<Rightarrow> param_group \<Rightarrow> nat list \<Rightarrow> 'a env
     \<Rightarrow> error option \<times> 'a adam \<times> 'a env" where
  "step_params F self grp [] env = (None, self, env)"
| "step_params F self grp (pid # pids) env =
     (case step_param F self grp pid env of
        (Some e, self1, env1) \<Rightarrow> (Some e, self1, env1)
      | (None, self1, env1) \<Rightarrow> step_params F self1 grp pids env1)"

fun step_groups ::
  "'a adam_fn \<Rightarrow> ('a::zero) adam \<Rightarrow> param_group list \<Rightarrow> 'a env
     \<Rightarrow> error option \<times> 'a adam \<times> 'a env" where
  "step_groups F self [] env = (None, self, env)"
| "step_groups F self (grp # groups) env =
     (case step_params F self grp (params grp) env of
        (Some e, self1, env1) \<Rightarrow> (Some e, self1, env1)
      | (None, self1, env1) \<Rightarrow> step_groups F self1 groups env1)"

text \<open>
  \<^verbatim>\<open>step(closure)\<close>: the closure, when given, re-evaluates the model (it may set the
  gradients) and gives the loss; then the loop over the groups. The result is the loss
  or the exception.
\<close>

definition step ::
  "'a adam_fn \<Rightarrow> ('a env \<Rightarrow> 'l \<times> 'a env) option \<Rightarrow> ('a::zero) adam \<Rightarrow> 'a env
     \<Rightarrow> (error + 'l option) \<times> 'a adam \<times> 'a env" where
  "step F closure self env =
     (let (loss, env0) =
            (case closure of
               None \<Rightarrow> (None, env)
             | Some c \<Rightarrow> (case c env of (l, env1) \<Rightarrow> (Some l, env1)))
      in case step_groups F self (param_groups self) env0 of
           (Some e, self1, env1) \<Rightarrow> (Inl e, self1, env1)
         | (None, self1, env1) \<Rightarrow> (Inr loss, self1, env1))"

text \<open>
  The training loop: \<^verbatim>\<open>step\<close> is called once per batch with the closure of that batch,
  and the loop ends at the first exception.
\<close>

fun train ::
  "'a adam_fn \<Rightarrow> ('a env \<Rightarrow> 'l \<times> 'a env) list \<Rightarrow> ('a::zero) adam \<Rightarrow> 'a env
     \<Rightarrow> error option \<times> 'a adam \<times> 'a env" where
  "train F [] self env = (None, self, env)"
| "train F (c # cs) self env =
     (case step F (Some c) self env of
        (Inl e, self1, env1) \<Rightarrow> (Some e, self1, env1)
      | (Inr loss, self1, env1) \<Rightarrow> train F cs self1 env1)"

section \<open>The invariant of the per-parameter state\<close>

text \<open>
  The shape the moment buffers of a parameter are expected to have: the shape of the
  shard buffer, \<^verbatim>\<open>math.ceil(n / world_size)\<close> followed by the trailing dimensions, when
  the parameter is shard-eligible, its full shape when it is not (none when the
  eligibility or the shard dimension cannot be computed). A state satisfies the
  invariant when its three keys are present and both moment buffers have that shape.
  \<open>step_only_dict\<close> is the state that the lazy initialization leaves behind when it
  raises after line 96: the key \<^verbatim>\<open>'step'\<close> alone, with the value 0. \<open>dict_ok\<close> says
  that a state is the empty dict, that one, or a state that satisfies the invariant;
  \<open>state_ok\<close> that the parameter has no entry yet or one that is \<open>dict_ok\<close>.
  \<open>step_count\<close> reads \<^verbatim>\<open>state['step']\<close>, 0 when there is none.
\<close>

definition expected_shape :: "('a, 'b) adam_scheme \<Rightarrow> 'c tensor \<Rightarrow> nat list option" where
  "expected_shape self p =
     (case need_partition self p of
        Inl e \<Rightarrow> None
      | Inr True \<Rightarrow>
          (case shape p of
             [] \<Rightarrow> None
           | n # rest \<Rightarrow>
               (case shard_dim n (world_size self) of
                  Inl e \<Rightarrow> None
                | Inr k \<Rightarrow> Some (k # rest)))
      | Inr False \<Rightarrow> Some (shape p))"

definition state_inv :: "('a, 'b) adam_scheme \<Rightarrow> 'c tensor \<Rightarrow> 'd state_dict \<Rightarrow> bool" where
  "state_inv self p sd =
     (case (st_step sd, exp_avg sd, exp_avg_sq sd) of
        (Some s, Some ea, Some eas) \<Rightarrow>
          shape ea = shape eas \<and> expected_shape self p = Some (shape ea)
      | _ \<Rightarrow> False)"

definition step_only_dict :: "'a state_dict" where
  "step_only_dict = \<lparr>st_step = Some 0, exp_avg = None, exp_avg_sq = None\<rparr>"

definition dict_ok :: "('a, 'b) adam_scheme \<Rightarrow> 'c tensor \<Rightarrow> 'd state_dict \<Rightarrow> bool" where
  "dict_ok self p sd = (sd = empty_dict \<or> sd = step_only_dict \<or> state_inv self p sd)"

definition state_ok :: "'a adam \<Rightarrow> 'a tensor \<Rightarrow> nat \<Rightarrow> bool" where
  "state_ok self p pid =
     (case state self pid of
        None \<Rightarrow> True
      | Some sd \<Rightarrow> dict_ok self p sd)"

definition step_count :: "'a adam \<Rightarrow> nat \<Rightarrow> int" where
  "step_count self pid =
     (case state self pid of
        None \<Rightarrow> 0
      | Some sd \<Rightarrow> (case st_step sd of None \<Rightarrow> 0 | Some s \<Rightarrow> s))"

section \<open>The write back asked for by the specification\<close>

text \<open>
  The specification asks that the updated local shard be put into the global parameter
  at the shard offset of the rank: rows \<open>rank * part_size\<close> up to
  \<open>(rank + 1) * part_size - 1\<close> take the rows of the update, as far as the parameter
  has such rows. This definition follows the words of the specification, not the code.
\<close>

definition scatter_at_offset ::
  "('a, 'b) adam_scheme \<Rightarrow> 'c tensor \<Rightarrow> 'c tensor \<Rightarrow> 'c tensor" where
  "scatter_at_offset self p updated =
     (let off = rank self * hd (shape updated) * row_size p
      in p\<lparr>storage :=
             take (length (storage p))
               (take off (storage p) @ storage updated
                  @ drop (off + length (storage updated)) (storage p))\<rparr>)"

section \<open>Example inputs\<close>

definition mk_tensor :: "nat list \<Rightarrow> 'a list \<Rightarrow> 'a tensor" where
  "mk_tensor shp xs =
     \<lparr>shape = shp, dtype = Float32, device = CPU, requires_grad = False, is_sparse = False,
      storage = xs\<rparr>"

definition mk_adam :: "nat \<Rightarrow> nat \<Rightarrow> nat \<Rightarrow> int adam" where
  "mk_adam level r w =
     \<lparr>param_groups = [], state = Map.empty, zero_opt_level = level, rank = r,
      world_size = w, lm = False\<rparr>"



definition ex_global_10x2 :: "int tensor" where
  "ex_global_10x2 =
     mk_tensor [10, 2] [1, 2, 3, 4, 5, 6, 7, 8, 9, 10, 11, 12, 13, 14, 15, 16, 17, 18, 19, 20]"

definition ex_shard_4x2 :: "int tensor" where
  "ex_shard_4x2 = mk_tensor [4, 2] (replicate 8 0)"

text \<open>
  A stand-in for \<^verbatim>\<open>F.adam\<close> on integers, a group with the default hyperparameters, an
  optimizer of rank 1 in a world of size 2, and parameter stores whose parameter 0 is a
  vector of four elements with a dense or a sparse gradient.
\<close>

definition ex_F :: "int adam_fn" where
  "ex_F grp p g m v t =
     (map2 (-) (storage p) (storage g), map2 (+) (storage m) (storage g),
      map ((+) t) (storage v))"

definition ex_grp :: param_group where
  "ex_grp = \<lparr>lr = 1 / 1000, betas = (9 / 10, 999 / 1000), eps = 1 / 100000000,
             weight_decay = 0, amsgrad = False, params = [0]\<rparr>"

definition ex_adam :: "int adam" where
  "ex_adam = \<lparr>param_groups = [ex_grp], state = Map.empty, zero_opt_level = 1, rank = 1,
              world_size = 2, lm = False\<rparr>"

definition ex_env :: "int env" where
  "ex_env =
     \<lparr>tensors = (\<lambda>_. \<lparr>data = mk_tensor [4] [10, 20, 30, 40],
                        grad = Some (mk_tensor [4] [1, 2, 3, 4])\<rparr>),
      mark_steps = 0\<rparr>"


text \<open>
  A store whose parameters are 0-dimensional, and the closure of a batch whose backward
  pass stores the gradient \<open>g\<close> for every parameter (the loss itself plays no role).
\<close>

definition ex_env_scalar :: "int env" where
  "ex_env_scalar =
     \<lparr>tensors = (\<lambda>_. \<lparr>data = mk_tensor [] [10], grad = Some (mk_tensor [] [1])\<rparr>),
      mark_steps = 0\<rparr>"

definition closure_env :: "int tensor \<Rightarrow> int env \<Rightarrow> int env" where
  "closure_env g env = env\<lparr>tensors := (\<lambda>i. (tensors env i)\<lparr>grad := Some g\<rparr>)\<rparr>"

definition ex_closure :: "int tensor \<Rightarrow> int env \<Rightarrow> int tensor \<times> int env" where
  "ex_closure g env = (g, closure_env g env)"

text \<open>
  The data and the gradient of parameter 0 in \<open>ex_env\<close>, the data after a step of
  \<open>ex_adam\<close>, and the state of parameter 0 after the first and after the second step.
\<close>

definition ex_data :: "int tensor" where
  "ex_data = mk_tensor [4] [10, 20, 30, 40]"

definition ex_grad :: "int tensor" where
  "ex_grad = mk_tensor [4] [1, 2, 3, 4]"

definition ex_data_1 :: "int tensor" where
  "ex_data_1 = mk_tensor [4] [36, 20, 30, 40]"

definition ex_state_0 :: "int state_dict" where
  "ex_state_0 = \<lparr>st_step = Some 0, exp_avg = Some (mk_tensor [2] [0, 0]),
                 exp_avg_sq = Some (mk_tensor [2] [0, 0])\<rparr>"

definition ex_state_1 :: "int state_dict" where
  "ex_state_1 = \<lparr>st_step = Some 1, exp_avg = Some (mk_tensor [2] [3, 4]),
                 exp_avg_sq = Some (mk_tensor [2] [1, 1])\<rparr>"

definition ex_state_2 :: "int state_dict" where
  "ex_state_2 = \<lparr>st_step = Some 2, exp_avg = Some (mk_tensor [2] [6, 8]),
                 exp_avg_sq = Some (mk_tensor [2] [3, 3])\<rparr>"

section \<open>Arithmetic of the shard size\<close>

lemma ceil_div_nat:
  assumes "0 < w"
  shows "nat \<lceil>real n / real w\<rceil> = (n + w - 1) div w"
proof -
  define q where "q = (n + w - 1) div w"
  have le: "q * w \<le> n + w - 1" unfolding q_def by simp
  have "n + w - 1 < w + q * w"
    unfolding q_def using assms by (rule dividend_less_div_times)
  with assms have up: "n \<le> q * w" by simp
  from le assms have lo: "q * w < n + w" by simp
  have "real n \<le> real (q * w)" using up by (rule of_nat_mono)
  then have 1: "real n / real w \<le> of_int (int q)"
    using assms by (simp add: divide_le_eq)
  have "real (q * w) < real (n + w)" using lo by (simp only: of_nat_less_iff)
  then have 2: "of_int (int q) - 1 < real n / real w"
    using assms by (simp add: less_divide_eq algebra_simps)
  have "\<lceil>real n / real w\<rceil> = int q" using 2 1 by (rule ceiling_unique)
  then show ?thesis by (simp add: q_def)
qed

text \<open>
  The float quotient of the source against the exact one. The exponent found from the
  bit lengths brackets the quotient; rounding to 53 bits moves it by at most half a unit
  in the last place; and for a numerator below \<open>2 ^ 53\<close> that is less than the distance
  \<open>1 / w\<close> from a quotient that is not an integer to the next integer, while an integer
  quotient is a double. So below \<open>2 ^ 53\<close> the ceiling of the float is the exact ceiling.
\<close>

lemma bit_length_bounds:
  "0 < n \<Longrightarrow> 2 ^ (bit_length n - 1) \<le> n \<and> n < 2 ^ bit_length n"
proof (induction n rule: bit_length.induct)
  case (1 n)
  show ?case
  proof (cases "n div 2 = 0")
    case True
    with "1.prems" have "n = 1" by (simp add: div_eq_0_iff)
    then show ?thesis by (simp add: bit_length.simps)
  next
    case False
    let ?b = "bit_length (n div 2)"
    from False "1.prems" "1.IH"
    have ih: "2 ^ (?b - 1) \<le> n div 2" "n div 2 < 2 ^ ?b" by simp_all
    from False have bpos: "0 < ?b" by (simp add: bit_length.simps [of "n div 2"])
    then have "(2::nat) ^ ?b = 2 * 2 ^ (?b - 1)" by (cases ?b) simp_all
    with ih(1) have lo: "2 ^ ?b \<le> n" by simp
    from ih(2) have "n < 2 * 2 ^ ?b" by simp
    with lo "1.prems" show ?thesis by (simp add: bit_length.simps [of n])
  qed
qed

lemma quot_exponent_bounds:
  assumes "0 < n" and "0 < w"
  shows "2 powi quot_exponent n w \<le> real n / real w"
    and "real n / real w < 2 powi (quot_exponent n w + 1)"
proof -
  let ?bn = "bit_length n" and ?bw = "bit_length w"
  let ?d = "int ?bn - int ?bw"
  from bit_length_bounds [OF assms(1)] have n: "2 ^ (?bn - 1) \<le> n" "n < 2 ^ ?bn" by simp_all
  from bit_length_bounds [OF assms(2)] have w: "2 ^ (?bw - 1) \<le> w" "w < 2 ^ ?bw" by simp_all
  from assms(1) have bn: "0 < ?bn" by (simp add: bit_length.simps [of n])
  from assms(2) have bw: "0 < ?bw" by (simp add: bit_length.simps [of w])
  have rn: "(2::real) powi (int ?bn - 1) \<le> real n" "real n < 2 powi int ?bn"
  proof -
    have "(2::real) powi (int ?bn - 1) = 2 ^ (?bn - 1)"
      using bn by (simp add: power_int_def nat_diff_distrib')
    also have "\<dots> = real (2 ^ (?bn - 1))" by simp
    also have "\<dots> \<le> real n" using n(1) by (simp only: of_nat_le_iff)
    finally show "(2::real) powi (int ?bn - 1) \<le> real n" .
    have "real n < real (2 ^ ?bn)" using n(2) by (simp only: of_nat_less_iff)
    then show "real n < 2 powi int ?bn" by simp
  qed
  have rw: "(2::real) powi (int ?bw - 1) \<le> real w" "real w < 2 powi int ?bw"
  proof -
    have "(2::real) powi (int ?bw - 1) = 2 ^ (?bw - 1)"
      using bw by (simp add: power_int_def nat_diff_distrib')
    also have "\<dots> = real (2 ^ (?bw - 1))" by simp
    also have "\<dots> \<le> real w" using w(1) by (simp only: of_nat_le_iff)
    finally show "(2::real) powi (int ?bw - 1) \<le> real w" .
    have "real w < real (2 ^ ?bw)" using w(2) by (simp only: of_nat_less_iff)
    then show "real w < 2 powi int ?bw" by simp
  qed
  have wpos: "0 < real w" using assms(2) by simp
  have up: "real n / real w < 2 powi (?d + 1)"
  proof -
    have "real n / real w < 2 powi int ?bn / real w"
      using rn(2) wpos by (simp add: divide_strict_right_mono)
    also have "\<dots> \<le> 2 powi int ?bn / 2 powi (int ?bw - 1)"
      using rw(1) wpos by (intro divide_left_mono) simp_all
    also have "\<dots> = 2 powi (int ?bn - (int ?bw - 1))"
      by (rule power_int_diff [symmetric]) simp
    also have "int ?bn - (int ?bw - 1) = ?d + 1" by simp
    finally show ?thesis .
  qed
  have lo: "2 powi (?d - 1) \<le> real n / real w"
  proof -
    have "(2::real) powi ((int ?bn - 1) - int ?bw) = 2 powi (int ?bn - 1) / 2 powi int ?bw"
      by (rule power_int_diff) simp
    moreover have "?d - 1 = (int ?bn - 1) - int ?bw" by simp
    ultimately have "(2::real) powi (?d - 1) = 2 powi (int ?bn - 1) / 2 powi int ?bw"
      by (simp only:)
    also have "\<dots> \<le> real n / 2 powi int ?bw"
      using rn(1) by (intro divide_right_mono) simp_all
    also have "\<dots> \<le> real n / real w"
      using rw(2) wpos by (intro divide_left_mono) simp_all
    finally show ?thesis .
  qed
  show "2 powi quot_exponent n w \<le> real n / real w"
    using lo by (simp add: quot_exponent_def Let_def)
  show "real n / real w < 2 powi (quot_exponent n w + 1)"
    using up by (auto simp: quot_exponent_def Let_def not_le)
qed

lemma round_half_even_error: "\<bar>of_int (round_half_even x) - x\<bar> \<le> 1 / 2"
proof -
  have "of_int \<lfloor>x\<rfloor> \<le> x" "x < of_int \<lfloor>x\<rfloor> + 1" by linarith+
  then show ?thesis by (auto simp: round_half_even_def Let_def)
qed

lemma round_half_even_of_int [simp]: "round_half_even (of_int k) = k"
  by (simp add: round_half_even_def)

lemma abs_scale:
  fixes a x u :: real
  assumes "0 < u"
  shows "\<bar>a - x / u\<bar> * u = \<bar>a * u - x\<bar>"
proof -
  have "\<bar>a - x / u\<bar> * u = \<bar>a - x / u\<bar> * \<bar>u\<bar>" using assms by simp
  also have "\<dots> = \<bar>(a - x / u) * u\<bar>" by (simp only: abs_mult)
  also have "(a - x / u) * u = a * u - x" using assms by (simp add: field_simps)
  finally show ?thesis .
qed

lemma scaled_round_error:
  fixes q u :: real
  assumes "0 < u"
  shows "\<bar>of_int (round_half_even (q / u)) * u - q\<bar> \<le> u / 2"
proof -
  define m :: real where "m = of_int (round_half_even (q / u))"
  define d where "d = \<bar>m - q / u\<bar>"
  have "d \<le> 1 / 2" unfolding d_def m_def by (rule round_half_even_error)
  then have "d * u \<le> 1 / 2 * u" using assms by (intro mult_right_mono) simp_all
  moreover have "d * u = \<bar>m * u - q\<bar>" unfolding d_def using assms by (rule abs_scale)
  ultimately have "\<bar>m * u - q\<bar> \<le> u / 2" by simp
  then show ?thesis unfolding m_def .
qed

lemma quotient_gap_above:
  fixes x w k :: real
  assumes "0 < w" and "x + 1 \<le> k * w"
  shows "x / w + 1 / w \<le> k"
proof -
  have "(x + 1) / w \<le> k" using assms by (simp add: divide_le_eq)
  then show ?thesis by (simp add: add_divide_distrib)
qed

lemma quotient_gap_below:
  fixes x w k :: real
  assumes "0 < w" and "(k - 1) * w + 1 \<le> x"
  shows "k - 1 + 1 / w \<le> x / w"
proof -
  have "((k - 1) * w + 1) / w \<le> x / w" using assms by (intro divide_right_mono) simp_all
  moreover have "((k - 1) * w + 1) / w = k - 1 + 1 / w"
    using assms by (simp add: add_divide_distrib)
  ultimately show ?thesis by simp
qed

lemma py_truediv_ceiling:
  assumes "0 < w" and "w < 2 ^ 63" and "n < 2 ^ 53"
  shows "\<exists>x. py_truediv n w = Inr x \<and> \<lceil>x\<rceil> = \<lceil>real n / real w\<rceil>"
proof (cases "n = 0")
  case True
  with assms(1) show ?thesis by (simp add: py_truediv_def)
next
  case False
  then have npos: "0 < n" by simp
  let ?q = "real n / real w"
  let ?e = "quot_exponent n w"
  let ?ulp = "(2::real) powi (?e - 52)"
  let ?r = "of_int (round_half_even (?q / ?ulp)) * ?ulp"
  let ?k = "\<lceil>?q\<rceil>"
  have wpos: "0 < real w" using assms(1) by simp
  have qpos: "0 < ?q" using npos wpos by simp
  note E = quot_exponent_bounds [OF npos assms(1)]
  have w63: "real w < 2 powi 63"
  proof -
    have "real w < real (2 ^ 63)" using assms(2) by (simp only: of_nat_less_iff)
    then show ?thesis by simp
  qed
  have n53: "real n < 2 powi 53"
  proof -
    have "real n < real (2 ^ 53)" using assms(3) by (simp only: of_nat_less_iff)
    then show ?thesis by simp
  qed
  have q_ge: "1 / real w \<le> ?q" using npos wpos by (simp add: divide_le_cancel)
  have q_le: "?q \<le> real n" using assms(1) npos by (simp add: divide_le_eq)
  have e_lo: "- 1022 \<le> ?e"
  proof (rule ccontr)
    assume "\<not> - 1022 \<le> ?e"
    then have "?e + 1 \<le> - 63" by simp
    then have "(2::real) powi (?e + 1) \<le> 2 powi (- 63)" by (intro power_int_increasing) simp_all
    also have "\<dots> = 1 / 2 powi 63" by (simp add: power_int_minus field_simps)
    also have "\<dots> < 1 / real w" using w63 wpos by (intro divide_strict_left_mono) simp_all
    finally show False using E(2) q_ge by simp
  qed
  have e_hi: "?e \<le> 52"
  proof (rule ccontr)
    assume "\<not> ?e \<le> 52"
    then have "53 \<le> ?e" by simp
    then have "(2::real) powi 53 \<le> 2 powi ?e" by (intro power_int_increasing) simp_all
    with E(1) q_le n53 show False by simp
  qed
  have ulp_pos: "0 < ?ulp" by simp
  have me: "max ?e (- 1022) = ?e" using e_lo by simp
  have err: "\<bar>?r - ?q\<bar> \<le> ?ulp / 2"
    using ulp_pos by (rule scaled_round_error)
  have half_ulp: "?ulp / 2 \<le> ?q / 2 ^ 53"
  proof -
    have "?ulp = 2 powi ?e / 2 powi 52" by (rule power_int_diff) simp
    then have "?ulp / 2 = 2 powi ?e / 2 ^ 53" by simp
    also have "\<dots> \<le> ?q / 2 ^ 53" using E(1) by (intro divide_right_mono) simp_all
    finally show ?thesis .
  qed
  have small: "?q / 2 ^ 53 < 1 / real w"
  proof -
    have "?q / 2 ^ 53 = (real n / 2 ^ 53) / real w" by simp
    also have "\<dots> < 1 / real w"
      using n53 wpos by (intro divide_strict_right_mono) simp_all
    finally show ?thesis .
  qed
  from err half_ulp small have close: "\<bar>?r - ?q\<bar> < 1 / real w" by linarith
  have no_overflow: "\<not> 2 powi 1024 \<le> ?r"
  proof -
    have "1 / real w \<le> 1" using assms(1) by simp
    with close q_le n53 have "?r < 2 powi 53 + 1" by linarith
    also have "\<dots> \<le> 2 powi 1024" by simp
    finally show ?thesis by simp
  qed
  have run: "py_truediv n w = Inr ?r"
    using assms(1) False no_overflow me by (simp add: py_truediv_def Let_def)
  have "\<lceil>?r\<rceil> = ?k"
  proof (cases "?q = of_int ?k")
    case True
    define u where "u = ?ulp"
    define j where "j = nat (52 - ?e)"
    have "1 / u = 2 powi (52 - ?e)"
      unfolding u_def by (simp add: power_int_diff field_simps)
    also have "\<dots> = 2 ^ j" using e_hi unfolding j_def by (simp add: power_int_def)
    finally have inv: "1 / u = 2 ^ j" .
    have upos: "0 < u" unfolding u_def by simp
    have "?q / u = ?q * (1 / u)" by simp
    also have "\<dots> = of_int ?k * 2 ^ j" using True inv by simp
    also have "\<dots> = of_int (?k * 2 ^ j)" by simp
    finally have "round_half_even (?q / u) = ?k * 2 ^ j"
      by (simp only: round_half_even_of_int)
    then have "of_int (round_half_even (?q / u)) * u = of_int ?k * (2 ^ j * u)" by simp
    also have "2 ^ j * u = 1" using inv upos by (simp add: field_simps)
    finally have "?r = of_int ?k" unfolding u_def by simp
    then show ?thesis by simp
  next
    case False
    have kq: "?q \<le> of_int ?k" "of_int ?k - 1 < ?q" by linarith+
    with False have lt: "?q < of_int ?k" by linarith
    have up: "?q + 1 / real w \<le> of_int ?k"
    proof -
      from lt wpos have "real n < of_int ?k * real w" by (simp add: divide_less_eq)
      then have "real_of_int (int n) < real_of_int (?k * int w)" by simp
      then have "int n < ?k * int w" by (simp only: of_int_less_iff)
      then have "int n + 1 \<le> ?k * int w" by simp
      then have "real_of_int (int n + 1) \<le> real_of_int (?k * int w)" by (simp only: of_int_le_iff)
      then have "real n + 1 \<le> of_int ?k * real w" by simp
      with wpos show ?thesis by (rule quotient_gap_above)
    qed
    have lo: "of_int ?k - 1 + 1 / real w \<le> ?q"
    proof -
      from kq(2) wpos have "(of_int ?k - 1) * real w < real n" by (simp add: less_divide_eq)
      then have "real_of_int ((?k - 1) * int w) < real_of_int (int n)" by simp
      then have "(?k - 1) * int w < int n" by (simp only: of_int_less_iff)
      then have "(?k - 1) * int w + 1 \<le> int n" by simp
      then have "real_of_int ((?k - 1) * int w + 1) \<le> real_of_int (int n)"
        by (simp only: of_int_le_iff)
      then have "(of_int ?k - 1) * real w + 1 \<le> real n" by simp
      with wpos show ?thesis by (rule quotient_gap_below)
    qed
    from close up lo have "of_int ?k - 1 < ?r" "?r \<le> of_int ?k" by linarith+
    then show ?thesis by (rule ceiling_unique)
  qed
  with run show ?thesis by simp
qed

lemma shard_dim_exact:
  assumes "0 < w" and "w < 2 ^ 63" and "n < 2 ^ 53"
  shows "shard_dim n w = Inr (nat \<lceil>real n / real w\<rceil>)"
proof -
  from py_truediv_ceiling [OF assms] obtain x where
    "py_truediv n w = Inr x" "\<lceil>x\<rceil> = \<lceil>real n / real w\<rceil>" by blast
  then show ?thesis by (simp add: shard_dim_def)
qed

section \<open>Shard eligibility (C3)\<close>

text \<open>
  C3. For a parameter with a leading dimension, \<open>need_partition\<close> answers true exactly
  when \<open>zero_opt_level > 0\<close> and the leading dimension is at least \<open>world_size\<close>.
  With \<open>zero_opt_level = 0\<close> no parameter of any shape (0-dimensional ones included)
  is eligible. With \<open>world_size = 4\<close> and \<open>zero_opt_level = 1\<close> the shape \<open>[10, 8]\<close>
  is eligible and the shape \<open>[3, 8]\<close> is not.
\<close>

theorem need_partition_iff:
  "(shape p \<noteq> [] \<longrightarrow>
      need_partition self p
        = Inr (0 < zero_opt_level self \<and> world_size self \<le> hd (shape p)))
   \<and> (zero_opt_level self = 0 \<longrightarrow> need_partition self p = Inr False)
   \<and> (world_size self = 4 \<and> zero_opt_level self = 1 \<longrightarrow>
        (shape p = [10, 8] \<longrightarrow> need_partition self p = Inr True)
        \<and> (shape p = [3, 8] \<longrightarrow> need_partition self p = Inr False))"
  by (cases "shape p") (auto simp: need_partition_def)

theorem need_partition_iff_witness:
  "need_partition (mk_adam 1 0 4) (mk_tensor [10, 8] (replicate 80 (0::int))) = Inr True
   \<and> need_partition (mk_adam 1 0 4) (mk_tensor [3, 8] (replicate 24 (0::int))) = Inr False
   \<and> need_partition (mk_adam 0 0 4) (mk_tensor [10, 8] (replicate 80 (0::int))) = Inr False"
  using need_partition_iff [of "mk_tensor [10, 8] (replicate 80 (0::int))" "mk_adam 1 0 4"]
        need_partition_iff [of "mk_tensor [3, 8] (replicate 24 (0::int))" "mk_adam 1 0 4"]
        need_partition_iff [of "mk_tensor [10, 8] (replicate 80 (0::int))" "mk_adam 0 0 4"]
  by (simp add: mk_adam_def mk_tensor_def)

section \<open>Shard buffers (C4)\<close>

text \<open>
  C4, the case that fails. The leading dimension is computed with Python's float
  division. For a parameter of shape \<open>[2 ^ 53 + 1, 0]\<close> and \<open>world_size = 2\<close> the float
  quotient is \<open>2 ^ 52\<close> (the exact quotient \<open>2 ^ 52 + 1 / 2\<close> is a tie and rounds to
  the even mantissa), so the buffer has the leading dimension \<open>4503599627370496\<close>, while
  \<open>ceil((2 ^ 53 + 1) / 2) = 4503599627370497\<close>.
\<close>

theorem create_partitioned_buffer_float_counterexample:
  "(create_partitioned_buffer (mk_adam 1 0 2) (mk_tensor [9007199254740993, 0] ([] :: int list))
      :: error + int tensor)
     = Inr (mk_tensor [4503599627370496, 0] [])
   \<and> nat \<lceil>real (9007199254740993 :: nat) / real (2 :: nat)\<rceil> = 4503599627370497"
  by (simp add: create_partitioned_buffer_def shard_dim_def py_truediv_def quot_exponent_def
        bit_length.simps round_half_even_def Let_def mk_adam_def mk_tensor_def zeros_def
        numel_def)

text \<open>
  C4, amended. For a parameter whose leading dimension \<open>n\<close> is below \<open>2 ^ 53\<close>, and a
  positive world size below \<open>2 ^ 63\<close>, \<open>create_partitioned_buffer\<close> returns a zero
  buffer with the trailing dimensions, the dtype and the device of the parameter, with
  the leading dimension \<open>ceil(n / world_size)\<close>, and with no gradient tracking; for
  \<open>world_size = 4\<close> the leading dimension 10 gives 3 and the leading dimension 8 gives 2.
\<close>

theorem create_partitioned_buffer_spec:
  assumes "0 < world_size self" and "world_size self < 2 ^ 63"
    and "shape p = n # rest" and "n < 2 ^ 53"
  shows "\<exists>b. create_partitioned_buffer self p = Inr b
           \<and> shape b = nat \<lceil>real n / real (world_size self)\<rceil> # rest
           \<and> hd (shape b) = (n + world_size self - 1) div world_size self
           \<and> tl (shape b) = tl (shape p)
           \<and> dtype b = dtype p \<and> device b = device p
           \<and> \<not> requires_grad b \<and> \<not> is_sparse b
           \<and> storage b = replicate (numel (shape b)) 0
           \<and> (world_size self = 4 \<longrightarrow>
                (n = 10 \<longrightarrow> hd (shape b) = 3) \<and> (n = 8 \<longrightarrow> hd (shape b) = 2))"
  using assms shard_dim_exact [OF assms(1,2,4)]
  by (auto simp: create_partitioned_buffer_def zeros_def ceil_div_nat)

theorem create_partitioned_buffer_spec_witness:
  "\<exists>b :: int tensor.
     create_partitioned_buffer (mk_adam 1 0 4) (mk_tensor [10, 8] (replicate 80 (0::int))) = Inr b
     \<and> shape b = [3, 8] \<and> storage b = replicate 24 0"
  using create_partitioned_buffer_spec
          [of "mk_adam 1 0 4" "mk_tensor [10, 8] (replicate 80 (0::int))" 10 "[8]",
           where ?'d = int]
  by (auto simp: mk_adam_def mk_tensor_def numel_def)

section \<open>Hyperparameter validation (C8)\<close>

text \<open>
  C8, the case that fails. The defaults do not always succeed: the parent constructor
  called on line 58 rejects an empty parameter list, so \<^verbatim>\<open>Adam([])\<close> with every
  hyperparameter at its default raises \<^verbatim>\<open>ValueError\<close>.
\<close>

theorem adam_init_empty_params_counterexample:
  "(adam_init_default [] \<lparr>dctx_zero_opt_level = 0, dctx_rank = 0, dctx_size = 1\<rparr>
      :: error + int adam)
     = Inl (ValueError ''optimizer got an empty parameter list'')"
  by (simp add: adam_init_def adam_init_default_def)

text \<open>
  C8, amended. With \<open>lr < 0\<close>, \<open>eps < 0\<close>, \<open>\<beta>1\<close> or \<open>\<beta>2\<close> outside \<open>[0, 1)\<close>, or
  \<open>weight_decay < 0\<close> the constructor always fails with \<^verbatim>\<open>ValueError\<close> (the
  specification's InvalidArgument). With \<open>amsgrad = true\<close> it always fails, with
  \<^verbatim>\<open>ValueError\<close> or \<^verbatim>\<open>NotImplementedError\<close>, and with \<^verbatim>\<open>NotImplementedError\<close>
  whenever the numeric hyperparameters are valid. A failure is the value \<open>Inl\<close>: no
  optimizer is returned. With the defaults and a non-empty parameter list the
  constructor succeeds and returns the optimizer with the single default group, no
  state, and the distributed context read once.
\<close>

theorem adam_init_validation:
  "(lr0 < 0 \<or> eps0 < 0 \<or> \<not> (0 \<le> fst b \<and> fst b < 1) \<or> \<not> (0 \<le> snd b \<and> snd b < 1) \<or> wd < 0 \<longrightarrow>
      (\<exists>m. (adam_init ps lr0 b eps0 wd ams ms dctx :: error + 'a adam) = Inl (ValueError m)))
   \<and> (ams \<longrightarrow>
        (\<exists>m. (adam_init ps lr0 b eps0 wd ams ms dctx :: error + 'a adam) = Inl (ValueError m))
        \<or> (adam_init ps lr0 b eps0 wd ams ms dctx :: error + 'a adam)
            = Inl (NotImplementedError ''amsgrad==True is not yet supported''))
   \<and> (0 \<le> lr0 \<and> 0 \<le> eps0 \<and> 0 \<le> fst b \<and> fst b < 1 \<and> 0 \<le> snd b \<and> snd b < 1 \<and> 0 \<le> wd \<and> ams \<longrightarrow>
        (adam_init ps lr0 b eps0 wd ams ms dctx :: error + 'a adam)
          = Inl (NotImplementedError ''amsgrad==True is not yet supported''))
   \<and> (ps \<noteq> [] \<longrightarrow>
        (adam_init_default ps dctx :: error + 'a adam)
          = Inr \<lparr>param_groups =
                    [\<lparr>lr = 1 / 1000, betas = (9 / 10, 999 / 1000), eps = 1 / 100000000,
                      weight_decay = 0, amsgrad = False, params = ps\<rparr>],
                  state = Map.empty,
                  zero_opt_level = dctx_zero_opt_level dctx,
                  rank = dctx_rank dctx,
                  world_size = dctx_size dctx,
                  lm = False\<rparr>)"
  by (auto simp: adam_init_def adam_init_default_def)

theorem adam_init_validation_witness:
  "(\<exists>m. (adam_init [0] (1 / 1000) (1, 999 / 1000) (1 / 100000000) 0 False False
            \<lparr>dctx_zero_opt_level = 1, dctx_rank = 0, dctx_size = 2\<rparr> :: error + int adam)
          = Inl (ValueError m))
   \<and> (adam_init [0] (1 / 1000) (9 / 10, 999 / 1000) (1 / 100000000) 0 True False
            \<lparr>dctx_zero_opt_level = 1, dctx_rank = 0, dctx_size = 2\<rparr> :: error + int adam)
          = Inl (NotImplementedError ''amsgrad==True is not yet supported'')
   \<and> (\<exists>opt. (adam_init_default [0, 1]
                 \<lparr>dctx_zero_opt_level = 1, dctx_rank = 0, dctx_size = 2\<rparr> :: error + int adam)
               = Inr opt \<and> world_size opt = 2)"
proof -
  let ?d = "\<lparr>dctx_zero_opt_level = 1, dctx_rank = 0, dctx_size = 2\<rparr>"
  have a: "\<not> (0 \<le> fst (1 :: real, 999 / 1000 :: real) \<and> fst (1 :: real, 999 / 1000 :: real) < 1)"
    by simp
  have b: "0 \<le> (1 / 1000 :: real) \<and> 0 \<le> (1 / 100000000 :: real)
           \<and> 0 \<le> fst (9 / 10 :: real, 999 / 1000 :: real)
           \<and> fst (9 / 10 :: real, 999 / 1000 :: real) < 1
           \<and> 0 \<le> snd (9 / 10 :: real, 999 / 1000 :: real)
           \<and> snd (9 / 10 :: real, 999 / 1000 :: real) < 1 \<and> 0 \<le> (0 :: real) \<and> True"
    by simp
  have c: "[0, 1 :: nat] \<noteq> []" by simp
  from adam_init_validation
         [where ?'a = int and ?lr0.0 = "1 / 1000" and ?eps0.0 = "1 / 100000000"
            and b = "(1, 999 / 1000)" and wd = 0 and ps = "[0]" and ams = False and ms = False
            and dctx = ?d] a
  have 1: "\<exists>m. (adam_init [0] (1 / 1000) (1, 999 / 1000) (1 / 100000000) 0 False False ?d
                  :: error + int adam) = Inl (ValueError m)"
    by blast
  from adam_init_validation
         [where ?'a = int and ?lr0.0 = "1 / 1000" and ?eps0.0 = "1 / 100000000"
            and b = "(9 / 10, 999 / 1000)" and wd = 0 and ps = "[0]" and ams = True
            and ms = False and dctx = ?d] b
  have 2: "(adam_init [0] (1 / 1000) (9 / 10, 999 / 1000) (1 / 100000000) 0 True False ?d
              :: error + int adam)
             = Inl (NotImplementedError ''amsgrad==True is not yet supported'')"
    by blast
  from adam_init_validation
         [where ?'a = int and ps = "[0, 1]" and dctx = ?d and b = "(0, 0)" and ams = False] c
  have 3: "\<exists>opt. (adam_init_default [0, 1] ?d :: error + int adam) = Inr opt
                 \<and> world_size opt = 2"
    by simp
  from 1 2 3 show ?thesis by blast
qed

section \<open>Padding, slices and rows\<close>

lemma chunks_length_le: "x \<in> set (chunks d sz xs) \<Longrightarrow> length x \<le> sz"
  by (induction d arbitrary: xs) auto

lemma concat_chunks: "concat (chunks d sz xs) = take (d * sz) xs"
proof (induction d arbitrary: xs)
  case 0
  then show ?case by simp
next
  case (Suc d)
  have "take sz xs @ take (d * sz) (drop sz xs) = take (sz + d * sz) xs"
    by (simp add: take_add)
  with Suc show ?case by simp
qed

lemma padded_shape_zero: "padded_shape ds (replicate m (0, 0)) = ds"
proof (induction ds arbitrary: m)
  case Nil
  then show ?case by (cases m) simp_all
next
  case (Cons d ds)
  then show ?case by (cases m) simp_all
qed

lemma pad_storage_zero:
  "length xs \<le> numel ds \<Longrightarrow> pad_storage ds (replicate m (0, 0)) xs = xs"
proof (induction ds arbitrary: m xs)
  case Nil
  then show ?case by simp
next
  case (Cons d ds)
  show ?case
  proof (cases m)
    case 0
    then show ?thesis by simp
  next
    case (Suc k)
    have "map (pad_storage ds (replicate k (0, 0))) (chunks d (numel ds) xs)
            = chunks d (numel ds) xs"
      using Cons.IH chunks_length_le by (fastforce intro: map_idI)
    with Cons.prems Suc show ?thesis
      by (simp add: concat_chunks numel_def)
  qed
qed

lemma pairs_of_zero_last:
  "pairs_of (replicate (2 * j) 0 @ [0, k]) = replicate j (0, 0) @ [(0, k)]"
  by (induction j) simp_all

lemma replicate_two_end: "x # x # replicate m x = replicate m x @ [x, x]"
  by (induction m) simp_all

lemma pad_width_last:
  "(replicate (Suc j * 2) (0::nat))[Suc j * 2 - 1 := k] = replicate (2 * j) 0 @ [0, k]"
proof -
  have "replicate (Suc j * 2) (0::nat) = replicate (2 * j) 0 @ [0, 0]"
    using replicate_two_end [of "0::nat" "2 * j"] by (simp add: mult.commute)
  then show ?thesis by (simp add: list_update_append)
qed

lemma F_pad_leading:
  assumes "shape g = n # rest" and "wf_tensor g"
  shows "F_pad g ((replicate (length (shape g) * 2) 0)[length (replicate (length (shape g) * 2) (0::nat)) - 1 := k])
           = Inr (g\<lparr>shape := (n + k) # rest,
                     storage := storage g @ replicate (k * numel rest) 0\<rparr>)"
proof -
  let ?j = "length rest"
  have pw: "(replicate (length (shape g) * 2) (0::nat))[length (replicate (length (shape g) * 2) (0::nat)) - 1 := k]
              = replicate (2 * ?j) 0 @ [0, k]"
    using pad_width_last [of ?j k] assms(1) by simp
  have len: "length (storage g) \<le> n * numel rest"
    using assms by (simp add: wf_tensor_def numel_def)
  have m: "map (pad_storage rest (replicate ?j (0, 0))) (chunks n (numel rest) (storage g))
            = chunks n (numel rest) (storage g)"
    using pad_storage_zero chunks_length_le by (fastforce intro: map_idI)
  show ?thesis
    unfolding pw F_pad_def
    using assms(1) len m
    by (simp add: pairs_of_zero_last padded_shape_zero concat_chunks)
qed

lemma row_of_slice:
  assumes "i < k"
  shows "take rs (drop (i * rs) (take (k * rs) (drop (lo * rs) xs)))
           = take rs (drop ((lo + i) * rs) xs)"
proof -
  from assms have "rs \<le> (k - i) * rs" by (cases "k - i") simp_all
  then have "min rs (k * rs - i * rs) = rs" by (simp add: diff_mult_distrib)
  then show ?thesis
    by (simp add: drop_take add_mult_distrib add.commute)
qed

lemma row_of_padded:
  assumes "length xs = n * rs"
  shows "take rs (drop (j * rs) (xs @ replicate (z * rs) (0::'a::zero)))
           = (if j < n then take rs (drop (j * rs) xs)
              else if j < n + z then replicate rs 0 else [])"
proof (cases "j < n")
  case True
  then have "Suc j \<le> n" by simp
  then have "Suc j * rs \<le> n * rs" by (rule mult_le_mono1)
  then have "rs \<le> length xs - j * rs" using assms by simp
  with True show ?thesis by simp
next
  case False
  then have le: "n * rs \<le> j * rs" by simp
  have d: "j * rs - n * rs = (j - n) * rs" by (simp add: diff_mult_distrib)
  show ?thesis
  proof (cases "j < n + z")
    case True
    with False have "Suc (j - n) \<le> z" by simp
    then have "Suc (j - n) * rs \<le> z * rs" by (rule mult_le_mono1)
    then have "rs \<le> z * rs - (j - n) * rs" by simp
    with False True le show ?thesis using assms by (simp add: d min_def)
  next
    case False
    then have "z \<le> j - n" by simp
    then have "z * rs \<le> (j - n) * rs" by (rule mult_le_mono1)
    with False le \<open>\<not> j < n\<close> show ?thesis using assms by (simp add: d)
  qed
qed

lemma partition_t_eligible:
  assumes "need_partition self g = Inr True" and "shape g = n # rest"
    and "shape l = ps # lrest" and "wf_tensor g"
  shows "partition_t self g l =
           (if n < world_size self * ps
            then map_sum id (Pair ViewOfPadded)
                   (slice_rows (g\<lparr>shape := (world_size self * ps) # rest,
                                   storage := storage g
                                     @ replicate ((world_size self * ps - n) * numel rest) 0\<rparr>)
                      (rank self * ps) ((rank self + 1) * ps))
            else map_sum id (Pair ViewOfGlobal)
                   (slice_rows g (rank self * ps) ((rank self + 1) * ps)))"
proof (cases "n < world_size self * ps")
  case True
  have "F_pad g ((replicate (length (shape g) * 2) 0)
                   [length (replicate (length (shape g) * 2) (0::nat)) - 1 := world_size self * ps - n])
          = Inr (g\<lparr>shape := (n + (world_size self * ps - n)) # rest,
                    storage := storage g @ replicate ((world_size self * ps - n) * numel rest) 0\<rparr>)"
    using assms(2,4) by (rule F_pad_leading)
  with True assms(1,2,3) show ?thesis
    by (simp add: partition_t_def Let_def slice_rows_def)
next
  case False
  with assms(1,2,3) show ?thesis
    by (simp add: partition_t_def slice_rows_def)
qed

lemma slice_rows_in_range:
  assumes "shape t = m # rest" and "(r + 1) * ps \<le> m"
  shows "slice_rows t (r * ps) ((r + 1) * ps)
           = Inr (t\<lparr>shape := ps # rest,
                    storage := take (ps * numel rest) (drop (r * ps * numel rest) (storage t))\<rparr>)"
proof -
  from assms(2) have "r * ps \<le> m" by simp
  with assms show ?thesis by (simp add: slice_rows_def min_def)
qed

lemma row_slice_tensor:
  assumes "i < ps"
  shows "row (t\<lparr>shape := ps # rest,
                storage := take (ps * numel rest) (drop (lo * numel rest) xs)\<rparr>) i
           = take (numel rest) (drop ((lo + i) * numel rest) xs)"
  using row_of_slice [OF assms, of "numel rest" lo xs]
  by (simp add: row_def row_size_def)

lemma last_two_rows:
  assumes "length xs = 10 * rs"
  shows "take (4 * rs) (drop (8 * rs) (xs @ replicate (2 * rs) (0::'a::zero)))
           = take rs (drop (8 * rs) xs) @ take rs (drop (9 * rs) xs) @ replicate (2 * rs) 0"
proof -
  have "drop (8 * rs) xs = take rs (drop (8 * rs) xs) @ drop rs (drop (8 * rs) xs)"
    by (rule append_take_drop_id [symmetric])
  moreover have "drop rs (drop (8 * rs) xs) = drop (9 * rs) xs" by simp
  moreover have "take rs (drop (9 * rs) xs) = drop (9 * rs) xs" using assms by simp
  ultimately have "drop (8 * rs) xs = take rs (drop (8 * rs) xs) @ take rs (drop (9 * rs) xs)"
    by simp
  then show ?thesis using assms by simp
qed

section \<open>Partition without padding (C5)\<close>



section \<open>Partition with padding (C2)\<close>

text \<open>
  C2. For a shard-eligible global tensor of shape \<open>n # rest\<close> with
  \<open>n < world_size * part_size\<close>, \<open>partition_t\<close> pads the tensor with trailing zero rows
  up to the leading dimension \<open>world_size * part_size\<close>, pads no other dimension, and
  returns the slice \<open>[rank * part_size : (rank + 1) * part_size]\<close> of the padded copy: for
  a rank below the world size the result has shape \<open>part_size # rest\<close>, and its row
  \<open>i\<close> is row \<open>rank * part_size + i\<close> of the global tensor where that row exists and
  a zero row otherwise. For \<open>world_size = 3\<close>, leading dimension 10, \<open>part_size = 4\<close>,
  rank 2 receives rows 8 and 9 followed by two zero rows.
\<close>

theorem partition_t_padded:
  assumes "need_partition self g = Inr True" and "shape g = n # rest"
    and "shape l = ps # lrest" and "n < world_size self * ps" and "wf_tensor g"
  shows "partition_t self g l
           = map_sum id (Pair ViewOfPadded)
               (slice_rows (g\<lparr>shape := (world_size self * ps) # rest,
                               storage := storage g
                                 @ replicate ((world_size self * ps - n) * numel rest) 0\<rparr>)
                  (rank self * ps) ((rank self + 1) * ps))
         \<and> (rank self < world_size self \<longrightarrow>
              (\<exists>t. partition_t self g l = Inr (ViewOfPadded, t)
                 \<and> shape t = ps # rest \<and> dtype t = dtype g \<and> device t = device g
                 \<and> (\<forall>i<ps. row t i = (if rank self * ps + i < n
                                        then row g (rank self * ps + i)
                                        else replicate (numel rest) 0))))
         \<and> (world_size self = 3 \<and> n = 10 \<and> ps = 4 \<and> rank self = 2 \<longrightarrow>
              partition_t self g l
                = Inr (ViewOfPadded,
                       g\<lparr>shape := 4 # rest,
                         storage := row g 8 @ row g 9 @ replicate (2 * numel rest) 0\<rparr>))"
proof (intro conjI impI)
  let ?w = "world_size self" and ?r = "rank self" and ?rs = "numel rest"
  let ?padded = "g\<lparr>shape := (?w * ps) # rest,
                    storage := storage g @ replicate ((?w * ps - n) * ?rs) 0\<rparr>"
  show e: "partition_t self g l
             = map_sum id (Pair ViewOfPadded) (slice_rows ?padded (?r * ps) ((?r + 1) * ps))"
    using partition_t_eligible [OF assms(1,2,3,5)] assms(4) by simp
  have len: "length (storage g) = n * ?rs"
    using assms(2,5) by (simp add: wf_tensor_def numel_def)
  {
    assume r: "?r < ?w"
    then have "Suc ?r \<le> ?w" by simp
    then have "Suc ?r * ps \<le> ?w * ps" by (rule mult_le_mono1)
    then have b: "(?r + 1) * ps \<le> ?w * ps" by simp
    have s: "slice_rows ?padded (?r * ps) ((?r + 1) * ps)
               = Inr (?padded\<lparr>shape := ps # rest,
                        storage := take (ps * ?rs) (drop (?r * ps * ?rs) (storage ?padded))\<rparr>)"
      using b by (intro slice_rows_in_range) simp_all
    have rows: "\<forall>i<ps. row (?padded\<lparr>shape := ps # rest,
                        storage := take (ps * ?rs) (drop (?r * ps * ?rs) (storage ?padded))\<rparr>) i
                 = (if ?r * ps + i < n then row g (?r * ps + i) else replicate ?rs 0)"
    proof (intro allI impI)
      fix i assume i: "i < ps"
      then have "?r * ps + i < Suc ?r * ps" by simp
      with \<open>Suc ?r * ps \<le> ?w * ps\<close> have "?r * ps + i < ?w * ps" by simp
      with assms(4) have in_pad: "?r * ps + i < n + (?w * ps - n)" by simp
      have "row (?padded\<lparr>shape := ps # rest,
                        storage := take (ps * ?rs) (drop (?r * ps * ?rs) (storage ?padded))\<rparr>) i
              = take ?rs (drop ((?r * ps + i) * ?rs) (storage ?padded))"
        using i by (rule row_slice_tensor)
      also have "\<dots> = take ?rs (drop ((?r * ps + i) * ?rs)
                                (storage g @ replicate ((?w * ps - n) * ?rs) 0))"
        by simp
      also have "\<dots> = (if ?r * ps + i < n then take ?rs (drop ((?r * ps + i) * ?rs) (storage g))
                        else if ?r * ps + i < n + (?w * ps - n) then replicate ?rs 0 else [])"
        using len by (rule row_of_padded)
      also have "\<dots> = (if ?r * ps + i < n then take ?rs (drop ((?r * ps + i) * ?rs) (storage g))
                        else replicate ?rs 0)"
        by (simp only: in_pad if_True)
      also have "\<dots> = (if ?r * ps + i < n then row g (?r * ps + i) else replicate ?rs 0)"
        using assms(2) by (simp add: row_def row_size_def)
      finally show "row (?padded\<lparr>shape := ps # rest,
                        storage := take (ps * ?rs) (drop (?r * ps * ?rs) (storage ?padded))\<rparr>) i
                 = (if ?r * ps + i < n then row g (?r * ps + i) else replicate ?rs 0)" .
    qed
    from e s rows
    show "\<exists>t. partition_t self g l = Inr (ViewOfPadded, t)
                 \<and> shape t = ps # rest \<and> dtype t = dtype g \<and> device t = device g
                 \<and> (\<forall>i<ps. row t i = (if ?r * ps + i < n
                                        then row g (?r * ps + i)
                                        else replicate ?rs 0))"
      by simp
  }
  {
    assume x: "?w = 3 \<and> n = 10 \<and> ps = 4 \<and> ?r = 2"
    then have "slice_rows ?padded (?r * ps) ((?r + 1) * ps)
                 = Inr (?padded\<lparr>shape := 4 # rest,
                          storage := take (4 * ?rs) (drop (8 * ?rs) (storage g @ replicate (2 * ?rs) 0))\<rparr>)"
      by (simp add: slice_rows_def)
    moreover have "take (4 * ?rs) (drop (8 * ?rs) (storage g @ replicate (2 * ?rs) 0))
                     = row g 8 @ row g 9 @ replicate (2 * ?rs) 0"
      using last_two_rows [of "storage g" ?rs] len x assms(2)
      by (simp add: row_def row_size_def)
    ultimately show "partition_t self g l
                = Inr (ViewOfPadded,
                       g\<lparr>shape := 4 # rest,
                         storage := row g 8 @ row g 9 @ replicate (2 * ?rs) 0\<rparr>)"
      using e by simp
  }
qed

theorem partition_t_padded_witness:
  "need_partition (mk_adam 1 2 3) ex_global_10x2 = Inr True
   \<and> wf_tensor ex_global_10x2
   \<and> partition_t (mk_adam 1 2 3) ex_global_10x2 ex_shard_4x2
       = Inr (ViewOfPadded, mk_tensor [4, 2] [17, 18, 19, 20, 0, 0, 0, 0])"
proof -
  let ?A = "mk_adam 1 2 3" and ?G = ex_global_10x2 and ?L = ex_shard_4x2
  have h1: "need_partition ?A ?G = Inr True" by code_simp
  have h2: "shape ?G = 10 # [2]" by code_simp
  have h3: "shape ?L = 4 # [2]" by code_simp
  have h4: "10 < world_size ?A * 4" by code_simp
  have h5: "wf_tensor ?G" by code_simp
  have c: "world_size ?A = 3 \<and> (10::nat) = 10 \<and> (4::nat) = 4 \<and> rank ?A = 2" by code_simp
  from partition_t_padded [OF h1 h2 h3 h4 h5] c
  have "partition_t ?A ?G ?L
          = Inr (ViewOfPadded,
                 ?G\<lparr>shape := 4 # [2],
                    storage := row ?G 8 @ row ?G 9 @ replicate (2 * numel [2]) 0\<rparr>)"
    by blast
  moreover have "?G\<lparr>shape := 4 # [2],
                    storage := row ?G 8 @ row ?G 9 @ replicate (2 * numel [2]) 0\<rparr>
                 = mk_tensor [4, 2] [17, 18, 19, 20, 0, 0, 0, 0]"
    by code_simp
  ultimately show ?thesis using h1 h5 by simp
qed

section \<open>Sparse gradients (C7)\<close>









section \<open>Scatter with an all-zero index\<close>

lemma scatter_writes_length:
  "length (scatter_writes sshp ishp srcshp idx src qs self) = length self"
  by (induction qs arbitrary: self) (simp_all add: Let_def)

lemma scatter_writes_append:
  "scatter_writes sshp ishp srcshp idx src (qs1 @ qs2) self
     = scatter_writes sshp ishp srcshp idx src qs2
         (scatter_writes sshp ishp srcshp idx src qs1 self)"
  by (induction qs1 arbitrary: self) (simp_all add: Let_def)

lemma scatter_writes_frame:
  "\<forall>q \<in> set qs. ravel sshp (nat (idx ! q) # tl (unravel ishp q)) \<noteq> j \<Longrightarrow>
   scatter_writes sshp ishp srcshp idx src qs self ! j = self ! j"
  by (induction qs arbitrary: self) (simp_all add: Let_def)

lemma scatter_writes_hit:
  assumes "j < length self" and "q \<in> set qs"
    and "ravel sshp (nat (idx ! q) # tl (unravel ishp q)) = j"
  shows "\<exists>q' \<in> set qs. ravel sshp (nat (idx ! q') # tl (unravel ishp q')) = j
           \<and> scatter_writes sshp ishp srcshp idx src qs self ! j
               = src ! ravel srcshp (unravel ishp q')"
  using assms(2,3)
proof (induction qs rule: rev_induct)
  case Nil
  then show ?case by simp
next
  case (snoc x xs)
  let ?t = "\<lambda>q. ravel sshp (nat (idx ! q) # tl (unravel ishp q))"
  let ?mid = "scatter_writes sshp ishp srcshp idx src xs self"
  have step: "scatter_writes sshp ishp srcshp idx src (xs @ [x]) self
                = ?mid[?t x := src ! ravel srcshp (unravel ishp x)]"
    by (simp add: scatter_writes_append Let_def)
  have len: "length ?mid = length self" by (rule scatter_writes_length)
  show ?case
  proof (cases "?t x = j")
    case True
    with step len assms(1) show ?thesis by auto
  next
    case False
    with snoc.prems have "q \<in> set xs" by auto
    from snoc.IH [OF this snoc.prems(2)] obtain q' where
      "q' \<in> set xs" "?t q' = j" "?mid ! j = src ! ravel srcshp (unravel ishp q')" by blast
    with step False show ?thesis by auto
  qed
qed

lemma numel_Cons: "numel (d # ds) = d * numel ds"
  by (simp add: numel_def)

lemma ravel_unravel_id: "q < numel ds \<Longrightarrow> ravel ds (unravel ds q) = q"
proof (induction ds arbitrary: q)
  case Nil
  then show ?case by (simp add: numel_def)
next
  case (Cons d ds)
  then have "0 < numel ds" by (cases "numel ds = 0") (simp_all add: numel_Cons)
  then have "q mod numel ds < numel ds" by simp
  from Cons.IH [OF this] show ?case by simp
qed

lemma ravel_unravel_bound:
  "list_all2 (\<le>) js ds \<Longrightarrow> q < numel js \<Longrightarrow> ravel ds (unravel js q) < numel ds"
proof (induction arbitrary: q rule: list_all2_induct)
  case Nil
  then show ?case by (simp add: numel_def)
next
  case (Cons i js d ds)
  from Cons.prems have pos: "0 < numel js" by (cases "numel js = 0") (simp_all add: numel_Cons)
  then have "q mod numel js < numel js" by simp
  from Cons.IH [OF this] have r: "ravel ds (unravel js (q mod numel js)) < numel ds" .
  from Cons.prems pos have "q div numel js < i"
    by (simp add: numel_Cons less_mult_imp_div_less)
  with Cons.hyps(1) have "Suc (q div numel js) \<le> d" by simp
  then have "Suc (q div numel js) * numel ds \<le> d * numel ds" by (rule mult_le_mono1)
  with r show ?case by (simp add: numel_Cons)
qed

text \<open>Targets and sources of the writes for an all-zero index of the shape of the source.\<close>

lemma zero_index_target:
  assumes "q < m * numel rest"
  shows "ravel (n # rest) (nat ((replicate (m * numel rest) (0::int)) ! q)
           # tl (unravel (m # rest) q)) = q mod numel rest"
proof -
  from assms have "0 < numel rest" by (cases "numel rest = 0") simp_all
  then have "q mod numel rest < numel rest" by simp
  then have "ravel rest (unravel rest (q mod numel rest)) = q mod numel rest"
    by (rule ravel_unravel_id)
  with assms show ?thesis by simp
qed

lemma zero_index_source:
  assumes "q < m * numel rest"
  shows "ravel (m # rest) (unravel (m # rest) q) = q"
  using assms by (intro ravel_unravel_id) (simp add: numel_Cons)

lemma upt_split_at: "k < m \<Longrightarrow> [0..<m] = [0..<k] @ [k] @ [Suc k..<m]"
  using upt_add_eq_append [of 0 k "m - k"] by (simp add: upt_conv_Cons)

lemma mod_after_last_block:
  assumes "(m - 1) * rs + c < q" and "q < m * rs" and "c < (rs::nat)"
  shows "q mod rs \<noteq> c"
proof
  assume e: "q mod rs = c"
  define k where "k = q div rs"
  have q: "q = k * rs + c" unfolding k_def using e by (metis div_mult_mod_eq)
  from assms(1) have "(m - 1) * rs + c < k * rs + c" unfolding q .
  then have "(m - 1) * rs < k * rs" by simp
  then have "m - 1 < k" by simp
  then have "m \<le> k" by simp
  then have "m * rs \<le> k * rs" by (rule mult_le_mono1)
  with assms(2) show False unfolding q by simp
qed

lemma writeback_eligible:
  assumes "need_partition self p = Inr True" and "shape p = n # rest"
    and "shape upd = m # rest" and "writeback self p upd = Inr d"
  shows "\<exists>xs. d = p\<lparr>storage := xs\<rparr>
           \<and> length xs = length (storage p)
           \<and> (\<forall>j\<ge>numel rest. xs ! j = storage p ! j)
           \<and> (0 < m \<longrightarrow> (\<forall>c<numel rest. c < length (storage p) \<longrightarrow>
                 xs ! c = storage upd ! ((m - 1) * numel rest + c)))"
proof -
  let ?rs = "numel rest"
  let ?idx = "replicate (m * ?rs) (0::int)"
  let ?W = "\<lambda>qs ys. scatter_writes (n # rest) (m # rest) (m # rest) ?idx (storage upd) qs ys"
  let ?xs = "?W [0..<m * ?rs] (storage p)"
  from assms(1,4)
  have "scatter_dim0 p (zeros (shape upd) Int64 (device upd)) upd = Inr d"
    by (simp add: writeback_def)
  then have "d = p\<lparr>storage :=
                   scatter_writes (at_least_1d (shape p)) (at_least_1d (shape upd))
                     (at_least_1d (shape upd))
                     (storage (zeros (shape upd) Int64 (device upd) :: int tensor)) (storage upd)
                     [0 ..< numel (at_least_1d (shape upd))] (storage p)\<rparr>"
    by (simp add: scatter_dim0_def Let_def zeros_def split: if_splits)
  with assms(2,3) have wb: "d = p\<lparr>storage := ?xs\<rparr>"
    by (simp add: at_least_1d_def zeros_def numel_Cons)
  have len: "length ?xs = length (storage p)" by (rule scatter_writes_length)
  have tgt: "\<And>q. q < m * ?rs \<Longrightarrow>
               ravel (n # rest) (nat (?idx ! q) # tl (unravel (m # rest) q)) = q mod ?rs"
    by (rule zero_index_target)
  have frame: "\<forall>j\<ge>?rs. ?xs ! j = storage p ! j"
  proof (intro allI impI)
    fix j assume j: "?rs \<le> j"
    have "\<forall>q \<in> set [0..<m * ?rs].
            ravel (n # rest) (nat (?idx ! q) # tl (unravel (m # rest) q)) \<noteq> j"
    proof
      fix q assume "q \<in> set [0..<m * ?rs]"
      then have q: "q < m * ?rs" by simp
      then have "0 < ?rs" by (cases "?rs = 0") simp_all
      then have "q mod ?rs < ?rs" by simp
      with j tgt [OF q]
      show "ravel (n # rest) (nat (?idx ! q) # tl (unravel (m # rest) q)) \<noteq> j" by simp
    qed
    then show "?xs ! j = storage p ! j" by (rule scatter_writes_frame)
  qed
  have last: "0 < m \<longrightarrow> (\<forall>c<?rs. c < length (storage p) \<longrightarrow>
                 ?xs ! c = storage upd ! ((m - 1) * ?rs + c))"
  proof (intro allI impI)
    fix c assume m: "0 < m" and c: "c < ?rs" and cl: "c < length (storage p)"
    let ?q = "(m - 1) * ?rs + c"
    from m c have "?q < (m - 1) * ?rs + ?rs" by simp
    also from m have "(m - 1) * ?rs + ?rs = m * ?rs"
      by (cases m) simp_all
    finally have q: "?q < m * ?rs" .
    let ?mid = "?W [0..<?q] (storage p)"
    have split: "?xs = ?W [Suc ?q..<m * ?rs] (?W [?q] ?mid)"
      using upt_split_at [OF q] by (simp only: scatter_writes_append)
    have after: "\<forall>q' \<in> set [Suc ?q..<m * ?rs].
            ravel (n # rest) (nat (?idx ! q') # tl (unravel (m # rest) q')) \<noteq> c"
    proof
      fix q' assume "q' \<in> set [Suc ?q..<m * ?rs]"
      then have a: "?q < q'" and b: "q' < m * ?rs" by simp_all
      from mod_after_last_block [OF a b c] tgt [OF b]
      show "ravel (n # rest) (nat (?idx ! q') # tl (unravel (m # rest) q')) \<noteq> c" by simp
    qed
    have "?xs ! c = ?W [?q] ?mid ! c"
      unfolding split using after by (rule scatter_writes_frame)
    also have "?W [?q] ?mid = ?mid[?q mod ?rs := storage upd ! ?q]"
      using tgt [OF q] zero_index_source [OF q] by (simp add: Let_def)
    also have "?q mod ?rs = c" using c by simp
    also have "?mid[c := storage upd ! ?q] ! c = storage upd ! ?q"
      using cl by (simp add: scatter_writes_length)
    finally show "?xs ! c = storage upd ! ?q" .
  qed
  from wb len frame last show ?thesis by blast
qed

lemma writeback_not_eligible:
  assumes "need_partition self p = Inr False" and "shape upd = shape p"
    and "writeback self p upd = Inr d"
  shows "d = p\<lparr>storage := storage upd\<rparr>"
  using assms by (auto simp: writeback_def setitem_all_def split: list.splits)

lemma drop_eq_from_nth:
  assumes "length xs = length ys" and "\<forall>j\<ge>k. xs ! j = ys ! j"
  shows "drop k xs = drop k ys"
  using assms by (intro nth_equalityI) simp_all

lemma rows_after_first:
  assumes "length xs = length ys" and "\<forall>j\<ge>rs. xs ! j = ys ! j" and "1 \<le> (i::nat)"
  shows "take rs (drop (i * rs) xs) = take rs (drop (i * rs) ys)"
proof -
  from assms(3) have "rs \<le> i * rs" by (cases i) simp_all
  with assms(2) have "\<forall>j\<ge>i * rs. xs ! j = ys ! j"
    using le_trans by blast
  with assms(1) have "drop (i * rs) xs = drop (i * rs) ys" by (rule drop_eq_from_nth)
  then show ?thesis by simp
qed

lemma first_row_from_last:
  assumes "rs \<le> length xs" and "length us = m * rs" and "0 < m"
    and "\<forall>c<rs. xs ! c = us ! ((m - 1) * rs + c)"
  shows "take rs xs = take rs (drop ((m - 1) * rs) us)"
proof (rule nth_equalityI)
  from assms(3) have "(m - 1) * rs + rs = m * rs" by (cases m) simp_all
  with assms(2) have l: "rs \<le> length us - (m - 1) * rs" by simp
  with assms(1) show "length (take rs xs) = length (take rs (drop ((m - 1) * rs) us))"
    by simp
  fix i assume "i < length (take rs xs)"
  then have i: "i < rs" by simp
  with l have "(m - 1) * rs + i < length us" by simp
  with i assms(4) show "take rs xs ! i = take rs (drop ((m - 1) * rs) us) ! i"
    by simp
qed

section \<open>Running the step for one parameter\<close>

lemma need_partition_leading:
  "shape p = n # rest \<Longrightarrow>
   need_partition self p = Inr (0 < zero_opt_level self \<and> world_size self \<le> n)"
  by (simp add: need_partition_def)

lemma F_pad_leading_shape:
  assumes "shape g = n # rest"
  shows "\<exists>xs. F_pad g ((replicate (length (shape g) * 2) 0)
                  [length (replicate (length (shape g) * 2) (0::nat)) - 1 := k])
              = Inr (g\<lparr>shape := (n + k) # rest, storage := xs\<rparr>)"
proof -
  have pw: "(replicate (length (shape g) * 2) (0::nat))
              [length (replicate (length (shape g) * 2) (0::nat)) - 1 := k]
              = replicate (2 * length rest) 0 @ [0, k]"
    using pad_width_last [of "length rest" k] assms by simp
  have "F_pad g (replicate (2 * length rest) 0 @ [0, k])
          = Inr (g\<lparr>shape := (n + k) # rest,
                    storage := pad_storage (n # rest) ((0, k) # replicate (length rest) (0, 0))
                                 (storage g)\<rparr>)"
    unfolding F_pad_def using assms
    by (simp add: pairs_of_zero_last padded_shape_zero)
  then show ?thesis unfolding pw by blast
qed

lemma partition_t_shape:
  assumes "shape g = n # rest" and "shape l = ps # lrest"
  shows "\<exists>org v. partition_t self g l = Inr (org, v)
           \<and> (\<exists>k. shape v = k # rest) \<and> dtype v = dtype g
           \<and> (need_partition self g = Inr False \<longrightarrow> v = g)"
proof (cases "0 < zero_opt_level self \<and> world_size self \<le> n")
  case False
  with assms have np: "need_partition self g = Inr False" by (simp add: need_partition_leading)
  then have "partition_t self g l = Inr (SameObject, g)" by (simp add: partition_t_def)
  with np assms(1) show ?thesis by simp
next
  case True
  with assms have np: "need_partition self g = Inr True" by (simp add: need_partition_leading)
  show ?thesis
  proof (cases "n < world_size self * ps")
    case True
    from F_pad_leading_shape [OF assms(1), of "world_size self * ps - n"]
    obtain ys where "F_pad g ((replicate (length (shape g) * 2) 0)
                  [length (replicate (length (shape g) * 2) (0::nat)) - 1 := world_size self * ps - n])
              = Inr (g\<lparr>shape := (n + (world_size self * ps - n)) # rest, storage := ys\<rparr>)"
      by blast
    with True np assms
    have "partition_t self g l
            = Inr (ViewOfPadded,
                   g\<lparr>shape := (min ((rank self + 1) * ps) (world_size self * ps)
                                - min (rank self * ps) (world_size self * ps)) # rest,
                     storage := take ((min ((rank self + 1) * ps) (world_size self * ps)
                                        - min (rank self * ps) (world_size self * ps)) * numel rest)
                                  (drop (min (rank self * ps) (world_size self * ps) * numel rest)
                                     ys)\<rparr>)"
      by (simp add: partition_t_def Let_def slice_rows_def)
    with np show ?thesis by simp
  next
    case False
    with np assms
    have "partition_t self g l
            = Inr (ViewOfGlobal,
                   g\<lparr>shape := (min ((rank self + 1) * ps) n - min (rank self * ps) n) # rest,
                     storage := take ((min ((rank self + 1) * ps) n - min (rank self * ps) n)
                                        * numel rest)
                                  (drop (min (rank self * ps) n * numel rest) (storage g))\<rparr>)"
      by (simp add: partition_t_def slice_rows_def Let_def)
    with np show ?thesis by simp
  qed
qed

lemma numel_at_least_1d: "numel (at_least_1d shp) = numel shp"
  by (simp add: at_least_1d_def numel_def)

lemma zero_index_row0:
  assumes "list_all2 (\<le>) js rest" and "q < i * numel js"
  shows "ravel (n # rest) (nat ((replicate (i * numel js) (0::int)) ! q) # tl (unravel (i # js) q))
           < numel rest"
proof -
  from assms(2) have "0 < numel js" by (cases "numel js = 0") simp_all
  then have "q mod numel js < numel js" by simp
  with assms(1) have "ravel rest (unravel js (q mod numel js)) < numel rest"
    by (rule ravel_unravel_bound)
  with assms(2) show ?thesis by simp
qed

lemma writeback_frame:
  assumes "need_partition self p = Inr True" and "writeback self p upd = Inr p'"
  shows "\<exists>xs. p' = p\<lparr>storage := xs\<rparr> \<and> length xs = length (storage p)
           \<and> (\<forall>j\<ge>row_size p. xs ! j = storage p ! j)"
proof -
  from assms(1) obtain n rest where sp: "shape p = n # rest"
    by (cases "shape p") (auto simp: need_partition_def split: if_splits)
  obtain i js where si: "at_least_1d (shape upd) = i # js"
    by (cases "at_least_1d (shape upd)") (auto simp: at_least_1d_def split: if_splits)
  let ?idx = "replicate (i * numel js) (0::int)"
  let ?xs = "scatter_writes (n # rest) (i # js) (at_least_1d (shape upd)) ?idx (storage upd)
               [0..<i * numel js] (storage p)"
  have ne: "numel (shape upd) = i * numel js"
    using numel_at_least_1d [of "shape upd"] si by (simp add: numel_Cons)
  have wb: "writeback self p upd
              = scatter_dim0 p (zeros (shape upd) Int64 (device upd)) upd"
    using assms(1) by (simp add: writeback_def)
  have a1: "at_least_1d (shape p) = n # rest" using sp by (simp add: at_least_1d_def)
  have z1: "shape (zeros (shape upd) Int64 (device upd) :: int tensor) = shape upd"
    and z2: "storage (zeros (shape upd) Int64 (device upd) :: int tensor) = ?idx"
    using ne by (simp_all add: zeros_def)
  from assms(2) have sc: "scatter_dim0 p (zeros (shape upd) Int64 (device upd)) upd = Inr p'"
    unfolding wb .
  have ok: "list_all2 (\<le>) js rest"
  proof (rule ccontr)
    assume "\<not> list_all2 (\<le>) js rest"
    then have "scatter_dim0 p (zeros (shape upd) Int64 (device upd)) upd
                 = Inl (RuntimeError ''scatter'')"
      by (simp add: scatter_dim0_def Let_def a1 si z1 z2)
    with sc show False by simp
  qed
  have p': "p' = p\<lparr>storage := ?xs\<rparr>"
  proof -
    have "scatter_dim0 p (zeros (shape upd) Int64 (device upd)) upd = Inr (p\<lparr>storage := ?xs\<rparr>)
          \<or> scatter_dim0 p (zeros (shape upd) Int64 (device upd)) upd
                 = Inl (RuntimeError ''scatter'')"
      by (simp add: scatter_dim0_def Let_def a1 si z1 z2 numel_Cons)
    with sc show ?thesis by auto
  qed
  have fr: "\<forall>j\<ge>numel rest. ?xs ! j = storage p ! j"
  proof (intro allI impI)
    fix j assume j: "numel rest \<le> j"
    have "\<forall>q \<in> set [0..<i * numel js].
            ravel (n # rest) (nat (?idx ! q) # tl (unravel (i # js) q)) \<noteq> j"
    proof
      fix q assume "q \<in> set [0..<i * numel js]"
      then have "q < i * numel js" by simp
      from zero_index_row0 [OF ok this, of n] j
      show "ravel (n # rest) (nat (?idx ! q) # tl (unravel (i # js) q)) \<noteq> j" by simp
    qed
    then show "?xs ! j = storage p ! j" by (rule scatter_writes_frame)
  qed
  have "p' = p\<lparr>storage := ?xs\<rparr> \<and> length ?xs = length (storage p)
          \<and> (\<forall>j\<ge>row_size p. ?xs ! j = storage p ! j)"
    using p' sp fr by (simp add: scatter_writes_length row_size_def)
  then show ?thesis by (intro exI [of _ ?xs])
qed

lemma step_param_env:
  assumes "step_param F self grp pid env = (r, self1, env1)"
  shows "env1 = env
         \<or> (\<exists>upd d. writeback self (data (tensors env pid)) upd = Inr d
               \<and> tensors env1 = (tensors env)(pid := (tensors env pid)\<lparr>data := d\<rparr>))"
  using assms
  by (auto simp: step_param_def Let_def
           split: option.splits sum.splits prod.splits if_splits) blast+

section \<open>The optimizer's configuration and the example run\<close>

text \<open>
  Storing a state changes neither the groups nor the distributed configuration, so the
  helpers of the step, which read only the configuration, do not see it.
\<close>

lemma set_state_fields [simp]:
  "state (set_state self q sd) q = Some sd"
  "q' \<noteq> q \<Longrightarrow> state (set_state self q sd) q' = state self q'"
  "param_groups (set_state self q sd) = param_groups self"
  "zero_opt_level (set_state self q sd) = zero_opt_level self"
  "rank (set_state self q sd) = rank self"
  "world_size (set_state self q sd) = world_size self"
  "lm (set_state self q sd) = lm self"
  by (simp_all add: set_state_def)

lemma need_partition_set_state [simp]:
  "need_partition (set_state self q sd) p = need_partition self p"
  by (simp add: need_partition_def cong: list.case_cong)

lemma create_partitioned_buffer_set_state [simp]:
  "create_partitioned_buffer (set_state self q sd) p = create_partitioned_buffer self p"
  by (simp add: create_partitioned_buffer_def cong: list.case_cong sum.case_cong)

lemma partition_t_set_state [simp]:
  "partition_t (set_state self q sd) g l = partition_t self g l"
  by (simp add: partition_t_def cong: list.case_cong sum.case_cong bool.case_cong if_cong)

lemma writeback_set_state [simp]:
  "writeback (set_state self q sd) p upd = writeback self p upd"
  by (simp add: writeback_def)

lemma lazy_init_set_state [simp]:
  "lazy_init (set_state self q sd) p sd0 = lazy_init self p sd0"
  by (simp add: lazy_init_def cong: list.case_cong sum.case_cong bool.case_cong if_cong)

lemma local_update_set_state [simp]:
  "local_update F (set_state self q sd) grp p g sd0 = local_update F self grp p g sd0"
  by (simp add: local_update_def cong: option.case_cong sum.case_cong if_cong)

text \<open>
  The step of \<open>ex_adam\<close> on parameter 0, evaluated piece by piece: the first step
  creates the state, the second one uses it.
\<close>

lemma ex_shard_dim: "shard_dim 4 2 = Inr 2"
  using shard_dim_exact [of 2 4] by simp

lemma ex_create:
  "create_partitioned_buffer ex_adam ex_data = Inr (mk_tensor [2] [0, 0] :: int tensor)"
proof -
  have z: "(zeros [2] Float32 CPU :: int tensor) = mk_tensor [2] [0, 0]"
    by (simp add: zeros_def mk_tensor_def numel_def numeral_2_eq_2)
  have sh: "shape ex_data = [4]" "dtype ex_data = Float32" "device ex_data = CPU" by code_simp+
  have ws: "world_size ex_adam = 2" by code_simp
  show ?thesis by (simp add: create_partitioned_buffer_def sh ws ex_shard_dim z)
qed

lemma ex_lazy_init: "lazy_init ex_adam ex_data empty_dict = (None, ex_state_0)"
proof -
  have np: "need_partition ex_adam ex_data = Inr True" by code_simp
  show ?thesis
    by (simp add: lazy_init_def dict_len_def empty_dict_def np ex_create ex_state_0_def)
qed

lemma ex_local_update_1:
  "local_update ex_F ex_adam ex_grp ex_data ex_grad ex_state_0
     = Inr (ex_state_1, mk_tensor [2] [27, 36])"
  by code_simp

lemma ex_local_update_2:
  "local_update ex_F ex_adam ex_grp ex_data_1 ex_grad ex_state_1
     = Inr (ex_state_2, mk_tensor [2] [27, 36])"
  by code_simp

lemma ex_writeback_1: "writeback ex_adam ex_data (mk_tensor [2] [27, 36]) = Inr ex_data_1"
  by code_simp

lemma ex_writeback_2: "writeback ex_adam ex_data_1 (mk_tensor [2] [27, 36]) = Inr ex_data_1"
  by code_simp

lemma ex_step_param_1:
  assumes "data (tensors env 0) = ex_data" and "grad (tensors env 0) = Some ex_grad"
  shows "step_param ex_F ex_adam ex_grp 0 env
           = (None, set_state ex_adam 0 ex_state_1,
              env\<lparr>tensors := (tensors env)(0 := (tensors env 0)\<lparr>data := ex_data_1\<rparr>)\<rparr>)"
proof -
  have n: "state ex_adam 0 = None" "\<not> lm ex_adam" by (simp_all add: ex_adam_def)
  have g: "\<not> is_sparse ex_grad" by (simp add: ex_grad_def mk_tensor_def)
  show ?thesis
    by (simp add: step_param_def Let_def assms n g ex_lazy_init ex_local_update_1
          ex_writeback_1)
qed

lemma ex_step_param_2:
  assumes "data (tensors env 0) = ex_data_1" and "grad (tensors env 0) = Some ex_grad"
  shows "step_param ex_F (set_state ex_adam 0 ex_state_1) ex_grp 0 env
           = (None, set_state (set_state ex_adam 0 ex_state_1) 0 ex_state_2,
              env\<lparr>tensors := (tensors env)(0 := (tensors env 0)\<lparr>data := ex_data_1\<rparr>)\<rparr>)"
proof -
  have n: "\<not> lm ex_adam" by (simp add: ex_adam_def)
  have g: "\<not> is_sparse ex_grad" by (simp add: ex_grad_def mk_tensor_def)
  have l: "lazy_init ex_adam ex_data_1 ex_state_1 = (None, ex_state_1)"
    by (simp add: lazy_init_def dict_len_def ex_state_1_def)
  show ?thesis
    by (simp add: step_param_def Let_def assms n g l ex_local_update_2 ex_writeback_2)
qed

lemma ex_env_0: "data (tensors ex_env 0) = ex_data" "grad (tensors ex_env 0) = Some ex_grad"
  by (simp_all add: ex_env_def ex_data_def ex_grad_def)

lemma ex_step_1:
  assumes "data (tensors env 0) = ex_data"
  shows "step ex_F (Some (ex_closure ex_grad)) ex_adam env
     = (Inr (Some ex_grad), set_state ex_adam 0 ex_state_1,
        (closure_env ex_grad env)
          \<lparr>tensors := (tensors (closure_env ex_grad env))
             (0 := (tensors (closure_env ex_grad env) 0)\<lparr>data := ex_data_1\<rparr>)\<rparr>)"
proof -
  let ?e = "closure_env ex_grad env"
  have c: "ex_closure ex_grad env = (ex_grad, ?e)" by (simp add: ex_closure_def)
  have d: "data (tensors ?e 0) = ex_data" "grad (tensors ?e 0) = Some ex_grad"
    by (simp_all add: closure_env_def assms)
  have pg: "param_groups ex_adam = [ex_grp]" "params ex_grp = [0]"
    by (simp_all add: ex_adam_def ex_grp_def)
  show ?thesis
    unfolding step_def
    by (simp add: c pg ex_step_param_1 [OF d])
qed

lemma ex_step_2:
  assumes "data (tensors env 0) = ex_data_1"
  shows "step ex_F (Some (ex_closure ex_grad)) (set_state ex_adam 0 ex_state_1) env
     = (Inr (Some ex_grad), set_state (set_state ex_adam 0 ex_state_1) 0 ex_state_2,
        (closure_env ex_grad env)
          \<lparr>tensors := (tensors (closure_env ex_grad env))
             (0 := (tensors (closure_env ex_grad env) 0)\<lparr>data := ex_data_1\<rparr>)\<rparr>)"
proof -
  let ?e = "closure_env ex_grad env"
  have c: "ex_closure ex_grad env = (ex_grad, ?e)" by (simp add: ex_closure_def)
  have d: "data (tensors ?e 0) = ex_data_1" "grad (tensors ?e 0) = Some ex_grad"
    by (simp_all add: closure_env_def assms)
  have pg: "param_groups ex_adam = [ex_grp]" "params ex_grp = [0]"
    by (simp_all add: ex_adam_def ex_grp_def)
  show ?thesis
    unfolding step_def
    by (simp add: c pg ex_step_param_2 [OF d])
qed

lemma ex_train:
  "fst (train ex_F [ex_closure ex_grad, ex_closure ex_grad] ex_adam ex_env) = None"
  by (simp add: ex_step_1 [OF ex_env_0(1)] ex_step_2)

lemma ex_scalar_step:
  "fst (step ex_F (None :: (int env \<Rightarrow> int tensor \<times> int env) option) ex_adam ex_env_scalar)
     = Inl IndexError
   \<and> state (fst (snd (step ex_F (None :: (int env \<Rightarrow> int tensor \<times> int env) option)
                         ex_adam ex_env_scalar))) 0
       = Some \<lparr>st_step = Some 0, exp_avg = None, exp_avg_sq = None\<rparr>"
  by code_simp

lemma ex_level0_step_param:
  "fst (step_param ex_F (mk_adam 0 0 1) ex_grp 0 ex_env) = None
   \<and> data (tensors (snd (snd (step_param ex_F (mk_adam 0 0 1) ex_grp 0 ex_env))) 0)
       = mk_tensor [4] [9, 18, 27, 36]"
  by code_simp

lemma ex_level0_scalar:
  "fst (step_param ex_F (mk_adam 0 0 1) ex_grp 0 ex_env_scalar) = Some IndexError
   \<and> data (tensors (snd (snd (step_param ex_F (mk_adam 0 0 1) ex_grp 0 ex_env_scalar))) 0)
       = mk_tensor [] [10]"
  by code_simp

section \<open>The scatter leaves every row but the first (C10)\<close>

text \<open>
  C10. For a shard-eligible parameter the write back is the scatter along dimension 0
  with an index tensor whose entries are all zero. Whatever the rank and whatever the
  outcome of the body of the step, the parameter keeps its shape, every row of index 1
  or more keeps the value it had before, and no other parameter is changed: only row 0
  can be modified.
\<close>

theorem writeback_touches_row0_only:
  assumes "need_partition self (data (tensors env pid)) = Inr True"
    and "step_param F self grp pid env = (r, self1, env1)"
  shows "(\<forall>upd. writeback self (data (tensors env pid)) upd
                  = scatter_dim0 (data (tensors env pid))
                      (zeros (shape upd) Int64 (device upd)) upd
                \<and> (\<forall>v \<in> set (storage (zeros (shape upd) Int64 (device upd) :: int tensor)). v = 0))
         \<and> shape (data (tensors env1 pid)) = shape (data (tensors env pid))
         \<and> (\<forall>i\<ge>1. row (data (tensors env1 pid)) i = row (data (tensors env pid)) i)
         \<and> (\<forall>q. q \<noteq> pid \<longrightarrow> tensors env1 q = tensors env q)"
proof (intro conjI)
  show "\<forall>upd. writeback self (data (tensors env pid)) upd
                  = scatter_dim0 (data (tensors env pid))
                      (zeros (shape upd) Int64 (device upd)) upd
                \<and> (\<forall>v \<in> set (storage (zeros (shape upd) Int64 (device upd) :: int tensor)). v = 0)"
    using assms(1) by (simp add: writeback_def zeros_def)
next
  let ?p = "data (tensors env pid)"
  from step_param_env [OF assms(2)]
  have "\<exists>xs. data (tensors env1 pid) = ?p\<lparr>storage := xs\<rparr>
          \<and> length xs = length (storage ?p)
          \<and> (\<forall>j\<ge>row_size ?p. xs ! j = storage ?p ! j)"
  proof
    assume "env1 = env"
    then have "data (tensors env1 pid) = ?p\<lparr>storage := storage ?p\<rparr>
          \<and> length (storage ?p) = length (storage ?p)
          \<and> (\<forall>j\<ge>row_size ?p. storage ?p ! j = storage ?p ! j)"
      by simp
    then show ?thesis by (intro exI [of _ "storage ?p"])
  next
    assume "\<exists>upd d. writeback self ?p upd = Inr d
               \<and> tensors env1 = (tensors env)(pid := (tensors env pid)\<lparr>data := d\<rparr>)"
    then obtain upd d where wb: "writeback self ?p upd = Inr d"
      and t: "tensors env1 = (tensors env)(pid := (tensors env pid)\<lparr>data := d\<rparr>)"
      by blast
    from writeback_frame [OF assms(1) wb] t show ?thesis by simp
  qed
  then obtain xs where d: "data (tensors env1 pid) = ?p\<lparr>storage := xs\<rparr>"
    and len: "length xs = length (storage ?p)"
    and fr: "\<forall>j\<ge>row_size ?p. xs ! j = storage ?p ! j"
    by blast
  from d show "shape (data (tensors env1 pid)) = shape ?p" by simp
  show "\<forall>i\<ge>1. row (data (tensors env1 pid)) i = row ?p i"
    using rows_after_first [OF len fr] d by (simp add: row_def row_size_def)
next
  from step_param_env [OF assms(2)]
  show "\<forall>q. q \<noteq> pid \<longrightarrow> tensors env1 q = tensors env q" by auto
qed

theorem writeback_touches_row0_only_witness:
  "need_partition ex_adam (data (tensors ex_env 0)) = Inr True
   \<and> fst (step_param ex_F ex_adam ex_grp 0 ex_env) = None
   \<and> row (data (tensors (snd (snd (step_param ex_F ex_adam ex_grp 0 ex_env))) 0)) 1
       = row (data (tensors ex_env 0)) 1
   \<and> row (data (tensors (snd (snd (step_param ex_F ex_adam ex_grp 0 ex_env))) 0)) 3
       = row (data (tensors ex_env 0)) 3"
proof -
  have e: "need_partition ex_adam (data (tensors ex_env 0)) = Inr True" by code_simp
  have r: "step_param ex_F ex_adam ex_grp 0 ex_env
             = (fst (step_param ex_F ex_adam ex_grp 0 ex_env),
                fst (snd (step_param ex_F ex_adam ex_grp 0 ex_env)),
                snd (snd (step_param ex_F ex_adam ex_grp 0 ex_env)))"
    by simp
  have ok: "fst (step_param ex_F ex_adam ex_grp 0 ex_env) = None"
    by (simp add: ex_step_param_1 [OF ex_env_0])
  from writeback_touches_row0_only [OF e r]
  have "\<forall>i\<ge>1. row (data (tensors (snd (snd (step_param ex_F ex_adam ex_grp 0 ex_env))) 0)) i
                = row (data (tensors ex_env 0)) i"
    by blast
  then have "row (data (tensors (snd (snd (step_param ex_F ex_adam ex_grp 0 ex_env))) 0)) 1
               = row (data (tensors ex_env 0)) 1"
    and "row (data (tensors (snd (snd (step_param ex_F ex_adam ex_grp 0 ex_env))) 0)) 3
               = row (data (tensors ex_env 0)) 3"
    by simp_all
  with e ok show ?thesis by simp
qed

end
